theory Spec2Isabelle
  imports Main "HOL-Library.Word"
begin

unbundle bit_operations_syntax

section \<open>The colour console sink of spdlog (wincolor\_sink-inl.h)\<close>

text \<open>
  A shallow embedding of \<^verbatim>\<open>src/include/spdlog/sinks/wincolor_sink-inl.h\<close>.
  The sink's member functions become functions on a record of the sink's fields; the
  console behind \<^verbatim>\<open>out_handle_\<close> is an explicit state that is passed through
  and that records, in order, every call the sink makes.
\<close>

subsection \<open>Data\<close>

type_synonym byte = "8 word"

text \<open>\<^verbatim>\<open>memory_buf_t\<close>: the formatted message, a buffer of bytes.\<close>

type_synonym memory_buf_t = "byte list"

text \<open>\<^verbatim>\<open>WORD\<close> and \<^verbatim>\<open>std::uint16_t\<close>: console text attributes.\<close>

type_synonym attribs = "16 word"

datatype level_enum = trace | debug | info | warn | err | critical | off

datatype color_mode = always | automatic | never

text \<open>
  \<^verbatim>\<open>void *out_handle_\<close>: the null pointer, the sentinel
  \<^verbatim>\<open>INVALID_HANDLE_VALUE\<close>, or any other value.
\<close>

datatype handle = nullptr | INVALID_HANDLE_VALUE | Handle nat

text \<open>
  \<^verbatim>\<open>details::log_msg\<close>, with the fields the sink and its formatter use.
  \<^verbatim>\<open>size_t\<close> is \<open>nat\<close>: the only arithmetic the sink does on sizes is
  \<^verbatim>\<open>end - start\<close> under \<^verbatim>\<open>end > start\<close> and \<^verbatim>\<open>i + 1\<close> under
  \<^verbatim>\<open>i < num_start_ranges\<close>, neither of which wraps; the casts to the 32-bit
  \<^verbatim>\<open>DWORD\<close> are written out as \<open>mod 2 ^ 32\<close>. The two range arrays are lists;
  reading one at an index beyond its extent is a fault of the model.
\<close>

record log_msg =
  level :: level_enum
  payload :: memory_buf_t
  num_start_ranges :: nat
  color_ranges_start :: "nat list"
  num_end_ranges :: nat
  color_ranges_end :: "nat list"

text \<open>
  \<^verbatim>\<open>formatter_->format(msg, formatted)\<close> is an external collaborator: it fills the
  buffer and, through the message's mutable range fields, annotates the colour ranges.
\<close>

type_synonym format_fn = "log_msg \<Rightarrow> log_msg \<times> memory_buf_t"

text \<open>
  The sink's fields. \<^verbatim>\<open>in_console_\<close> is declared in the class header, which is not
  part of the sources; no function of this file assigns it, so its value is a parameter
  of the model. The mutex appears as the lock and unlock events of the call record below.
  An Isabelle name cannot end in an underscore, so the members \<^verbatim>\<open>out_handle_\<close>,
  \<^verbatim>\<open>in_console_\<close>, \<^verbatim>\<open>should_do_colors_\<close>, \<^verbatim>\<open>colors_\<close>,
  \<^verbatim>\<open>formatter_\<close> and the functions \<^verbatim>\<open>set_foreground_color_\<close>,
  \<^verbatim>\<open>print_range_\<close>, \<^verbatim>\<open>write_to_file_\<close> are written without it.
\<close>

record wincolor_sink =
  out_handle :: handle
  in_console :: bool
  should_do_colors :: bool
  colors :: "level_enum \<Rightarrow> attribs"
  formatter :: format_fn

text \<open>Everything the sink does to the outside, in the order it does it.\<close>

datatype call =
    Ev_lock
  | Ev_unlock
  | Ev_format log_msg
  | Ev_GetConsoleMode
  | Ev_GetConsoleScreenBufferInfo
  | Ev_SetConsoleTextAttribute attribs
  | Ev_WriteConsoleA memory_buf_t
  | Ev_WriteFile memory_buf_t

text \<open>
  The device behind the handle: whether it answers the two console queries, whether it
  accepts a change of its text attributes, its current text attributes, and the calls made
  so far. The sink ignores the result of every call but the two queries.
\<close>

record device =
  console_mode_ok :: bool
  buffer_info_ok :: bool
  set_attribute_ok :: bool
  wAttributes :: attribs
  calls :: "call list"

text \<open>Reading memory outside an array or outside the buffer is undefined in C++.\<close>

datatype fault = Range_array_overrun | Buffer_overrun

definition and_then :: "fault + 'a \<Rightarrow> ('a \<Rightarrow> fault + 'b) \<Rightarrow> fault + 'b" where
  "and_then r f = (case r of Inl e \<Rightarrow> Inl e | Inr x \<Rightarrow> f x)"

subsection \<open>The Win32 calls the sink relies on\<close>

text \<open>Attribute bits of \<^verbatim>\<open>wincon.h\<close>.\<close>

definition FOREGROUND_BLUE :: attribs where "FOREGROUND_BLUE = 0x0001"
definition FOREGROUND_GREEN :: attribs where "FOREGROUND_GREEN = 0x0002"
definition FOREGROUND_RED :: attribs where "FOREGROUND_RED = 0x0004"
definition FOREGROUND_INTENSITY :: attribs where "FOREGROUND_INTENSITY = 0x0008"
definition BACKGROUND_RED :: attribs where "BACKGROUND_RED = 0x0040"

definition record_call :: "call \<Rightarrow> device \<Rightarrow> device" where
  "record_call c d = d\<lparr>calls := calls d @ [c]\<rparr>"

text \<open>\<^verbatim>\<open>GetConsoleMode(h, &mode) != 0\<close>: false on a handle that names nothing.\<close>

definition GetConsoleMode :: "handle \<Rightarrow> device \<Rightarrow> bool \<times> device" where
  "GetConsoleMode h d =
     ((case h of Handle _ \<Rightarrow> console_mode_ok d | _ \<Rightarrow> False),
      record_call Ev_GetConsoleMode d)"

text \<open>\<^verbatim>\<open>GetConsoleScreenBufferInfo\<close>: the current attributes, or failure.\<close>

definition GetConsoleScreenBufferInfo :: "device \<Rightarrow> attribs option \<times> device" where
  "GetConsoleScreenBufferInfo d =
     ((if buffer_info_ok d then Some (wAttributes d) else None),
      record_call Ev_GetConsoleScreenBufferInfo d)"

text \<open>\<^verbatim>\<open>SetConsoleTextAttribute\<close>: a call that fails changes nothing.\<close>

definition SetConsoleTextAttribute :: "attribs \<Rightarrow> device \<Rightarrow> device" where
  "SetConsoleTextAttribute a d =
     record_call (Ev_SetConsoleTextAttribute a)
       (if set_attribute_ok d then d\<lparr>wAttributes := a\<rparr> else d)"

text \<open>
  \<^verbatim>\<open>WriteConsoleA(h, data + start, size, ...)\<close> and
  \<^verbatim>\<open>WriteFile(h, data, size, ...)\<close> are handed \<open>size\<close> bytes of the buffer from an
  offset on; their results are ignored by the sink. A call of size 0 reads nothing, so it
  returns wherever its offset lies; a call of a positive size that reaches beyond the
  buffer is a fault.
\<close>

definition WriteConsoleA :: "memory_buf_t \<Rightarrow> nat \<Rightarrow> nat \<Rightarrow> device \<Rightarrow> fault + device" where
  "WriteConsoleA formatted start sz d =
     (if sz = 0 \<or> start + sz \<le> length formatted
      then Inr (record_call (Ev_WriteConsoleA (take sz (drop start formatted))) d)
      else Inl Buffer_overrun)"

definition WriteFile :: "memory_buf_t \<Rightarrow> nat \<Rightarrow> device \<Rightarrow> fault + device" where
  "WriteFile formatted sz d =
     (if sz \<le> length formatted
      then Inr (record_call (Ev_WriteFile (take sz formatted)) d)
      else Inl Buffer_overrun)"

subsection \<open>The sink's functions\<close>

text \<open>\<^verbatim>\<open>static_cast<DWORD>\<close> of a size.\<close>

definition DWORD :: "nat \<Rightarrow> nat" where
  "DWORD n = n mod 2 ^ 32"

text \<open>\<^verbatim>\<open>set_color\<close> (lines 44-49).\<close>

definition set_color :: "level_enum \<Rightarrow> attribs \<Rightarrow> wincolor_sink \<Rightarrow> device \<Rightarrow> wincolor_sink \<times> device" where
  "set_color lvl color s d =
     (s\<lparr>colors := (colors s)(lvl := color)\<rparr>, record_call Ev_unlock (record_call Ev_lock d))"

text \<open>
  \<^verbatim>\<open>set_pattern\<close> (lines 118-123); the constructor of \<^verbatim>\<open>pattern_formatter\<close>
  is outside this file and is a parameter.
\<close>

definition set_pattern ::
  "(string \<Rightarrow> format_fn) \<Rightarrow> string \<Rightarrow> wincolor_sink \<Rightarrow> device \<Rightarrow> wincolor_sink \<times> device" where
  "set_pattern pattern_formatter pattern s d =
     (s\<lparr>formatter := pattern_formatter pattern\<rparr>,
      record_call Ev_unlock (record_call Ev_lock d))"

text \<open>\<^verbatim>\<open>set_formatter\<close> (lines 125-130).\<close>

definition set_formatter :: "format_fn \<Rightarrow> wincolor_sink \<Rightarrow> device \<Rightarrow> wincolor_sink \<times> device" where
  "set_formatter sink_formatter s d =
     (s\<lparr>formatter := sink_formatter\<rparr>, record_call Ev_unlock (record_call Ev_lock d))"

text \<open>\<^verbatim>\<open>set_color_mode_impl\<close> (lines 139-153).\<close>

definition set_color_mode_impl :: "color_mode \<Rightarrow> wincolor_sink \<Rightarrow> device \<Rightarrow> wincolor_sink \<times> device" where
  "set_color_mode_impl mode s d =
     (if mode = automatic then
        (case GetConsoleMode (out_handle s) d of
           (probe, d') \<Rightarrow> (s\<lparr>should_do_colors := probe\<rparr>, d'))
      else (s\<lparr>should_do_colors := (if mode = always then True else False)\<rparr>, d))"

text \<open>\<^verbatim>\<open>set_color_mode\<close> (lines 132-137).\<close>

definition set_color_mode :: "color_mode \<Rightarrow> wincolor_sink \<Rightarrow> device \<Rightarrow> wincolor_sink \<times> device" where
  "set_color_mode mode s d =
     (case set_color_mode_impl mode s (record_call Ev_lock d) of
        (s', d') \<Rightarrow> (s', record_call Ev_unlock d'))"

text \<open>
  The constructor (lines 18-35). The initial \<^verbatim>\<open>in_console_\<close> and the default
  pattern formatter come from outside this file and are parameters.
\<close>

definition default_colors :: "level_enum \<Rightarrow> attribs" where
  "default_colors lvl =
     (case lvl of
        trace \<Rightarrow> FOREGROUND_RED OR FOREGROUND_GREEN OR FOREGROUND_BLUE
      | debug \<Rightarrow> FOREGROUND_GREEN OR FOREGROUND_BLUE
      | info \<Rightarrow> FOREGROUND_GREEN
      | warn \<Rightarrow> FOREGROUND_RED OR FOREGROUND_GREEN OR FOREGROUND_INTENSITY
      | err \<Rightarrow> FOREGROUND_RED OR FOREGROUND_INTENSITY
      | critical \<Rightarrow> BACKGROUND_RED OR FOREGROUND_RED OR FOREGROUND_GREEN OR FOREGROUND_BLUE
                      OR FOREGROUND_INTENSITY
      | off \<Rightarrow> 0)"

definition new_wincolor_sink ::
  "bool \<Rightarrow> format_fn \<Rightarrow> handle \<Rightarrow> color_mode \<Rightarrow> device \<Rightarrow> wincolor_sink \<times> device" where
  "new_wincolor_sink in_console0 pattern_formatter h mode d =
     (case set_color_mode_impl mode
             \<lparr>out_handle = h, in_console = in_console0, should_do_colors = False,
              colors = (\<lambda>_. 0), formatter = pattern_formatter\<rparr> d of
        (s, d') \<Rightarrow> (s\<lparr>colors := default_colors\<rparr>, d'))"

text \<open>\<^verbatim>\<open>flush\<close> (lines 112-116) does nothing.\<close>

definition flush :: "wincolor_sink \<Rightarrow> device \<Rightarrow> wincolor_sink \<times> device" where
  "flush s d = (s, d)"

text \<open>\<^verbatim>\<open>set_foreground_color_\<close> (lines 155-171): returns the attributes to reset to.\<close>

definition set_foreground_color :: "attribs \<Rightarrow> device \<Rightarrow> attribs \<times> device" where
  "set_foreground_color attribs d =
     (case GetConsoleScreenBufferInfo d of
        (None, d') \<Rightarrow> (FOREGROUND_RED OR FOREGROUND_GREEN OR FOREGROUND_BLUE, d')
      | (Some orig, d') \<Rightarrow>
          (let new_attribs = attribs OR (orig AND 0xfff0)
           in (orig, SetConsoleTextAttribute new_attribs d')))"

text \<open>\<^verbatim>\<open>print_range_\<close> (lines 173-183).\<close>

definition print_range :: "memory_buf_t \<Rightarrow> nat \<Rightarrow> nat \<Rightarrow> device \<Rightarrow> fault + device" where
  "print_range formatted start endp d =
     (if endp > start then
        (let sz = DWORD (endp - start) in WriteConsoleA formatted start sz d)
      else Inr d)"

text \<open>\<^verbatim>\<open>write_to_file_\<close> (lines 185-192).\<close>

definition write_to_file :: "memory_buf_t \<Rightarrow> device \<Rightarrow> fault + device" where
  "write_to_file formatted d =
     (let sz = DWORD (length formatted) in WriteFile formatted sz d)"

text \<open>Reading \<^verbatim>\<open>msg.color_ranges_start[i]\<close> or \<^verbatim>\<open>msg.color_ranges_end[i]\<close>.\<close>

definition range_at :: "nat list \<Rightarrow> nat \<Rightarrow> fault + nat" where
  "range_at arr i = (if i < length arr then Inr (arr ! i) else Inl Range_array_overrun)"

text \<open>One round of the loop of \<^verbatim>\<open>log\<close> (lines 80-94).\<close>

definition color_step ::
  "wincolor_sink \<Rightarrow> log_msg \<Rightarrow> memory_buf_t \<Rightarrow> nat \<Rightarrow> device \<Rightarrow> fault + device" where
  "color_step s msg formatted i d =
     (case set_foreground_color (colors s (level msg)) d of
        (orig_attribs, d1) \<Rightarrow>
          and_then (range_at (color_ranges_start msg) i) (\<lambda>range_start.
          and_then (range_at (color_ranges_end msg) i) (\<lambda>range_end.
          and_then (print_range formatted range_start range_end d1) (\<lambda>d2.
            (let d3 = SetConsoleTextAttribute orig_attribs d2 in
             if i + 1 < num_start_ranges msg then
               and_then (range_at (color_ranges_start msg) (i + 1)) (\<lambda>next_start.
                 print_range formatted range_end next_start d3)
             else print_range formatted range_end (length formatted) d3)))))"

text \<open>The loop \<^verbatim>\<open>for(size_t i=0; i<msg.num_start_ranges; i++)\<close> (lines 78-95).\<close>

function color_loop ::
  "wincolor_sink \<Rightarrow> log_msg \<Rightarrow> memory_buf_t \<Rightarrow> nat \<Rightarrow> device \<Rightarrow> fault + device" where
  "color_loop s msg formatted i d =
     (if i < num_start_ranges msg then
        (case color_step s msg formatted i d of
           Inl e \<Rightarrow> Inl e
         | Inr d' \<Rightarrow> color_loop s msg formatted (i + 1) d')
      else Inr d)"
  by pat_completeness auto
termination
  by (relation "measure (\<lambda>(s, msg, formatted, i, d). num_start_ranges msg - i)") auto

declare color_loop.simps [simp del]

text \<open>The colourised branch of \<^verbatim>\<open>log\<close> (lines 73-104).\<close>

definition print_colored ::
  "wincolor_sink \<Rightarrow> log_msg \<Rightarrow> memory_buf_t \<Rightarrow> device \<Rightarrow> fault + device" where
  "print_colored s msg formatted d =
     (if num_start_ranges msg > 0 then
        and_then (range_at (color_ranges_start msg) 0) (\<lambda>first_start.
        and_then (print_range formatted 0 first_start d) (\<lambda>d1.
          color_loop s msg formatted 0 d1))
      else
        (case set_foreground_color (colors s (level msg)) d of
           (orig_attribs, d1) \<Rightarrow>
             and_then (print_range formatted 0 (length formatted) d1) (\<lambda>d2.
               Inr (SetConsoleTextAttribute orig_attribs d2))))"

text \<open>Lines 60-63 of \<^verbatim>\<open>log\<close>; \<^verbatim>\<open>MAX_RANGES\<close> is defined outside this file.\<close>

definition reset_ranges :: "nat \<Rightarrow> log_msg \<Rightarrow> log_msg" where
  "reset_ranges MAX_RANGES msg =
     msg\<lparr>num_start_ranges := 0,
         color_ranges_start := replicate MAX_RANGES 0,
         num_end_ranges := 0,
         color_ranges_end := replicate MAX_RANGES 0\<rparr>"

text \<open>
  \<^verbatim>\<open>log\<close> (lines 51-110). The result is the message as the call leaves it and the
  device after the call.
\<close>

definition log :: "nat \<Rightarrow> wincolor_sink \<Rightarrow> log_msg \<Rightarrow> device \<Rightarrow> fault + (log_msg \<times> device)" where
  "log MAX_RANGES s msg d =
     (if out_handle s = nullptr \<or> out_handle s = INVALID_HANDLE_VALUE then Inr (msg, d)
      else
        (let d1 = record_call Ev_lock d;
             msg1 = reset_ranges MAX_RANGES msg
         in case formatter s msg1 of
              (msg2, formatted) \<Rightarrow>
                (let d2 = record_call (Ev_format msg1) d1
                 in and_then
                      (if \<not> in_console s then write_to_file formatted d2
                       else if should_do_colors s \<and> num_start_ranges msg2 = num_end_ranges msg2
                       then print_colored s msg2 formatted d2
                       else write_to_file formatted d2)
                      (\<lambda>d3. Inr (msg2, record_call Ev_unlock d3)))))"

subsection \<open>What a sequence of calls amounts to\<close>

text \<open>The bytes handed to the device, in order, by the write calls of a sequence.\<close>

fun written :: "call list \<Rightarrow> memory_buf_t" where
  "written [] = []"
| "written (Ev_WriteConsoleA bs # cs) = bs @ written cs"
| "written (Ev_WriteFile bs # cs) = bs @ written cs"
| "written (c # cs) = written cs"

text \<open>The attribute values set by a sequence of calls, in order.\<close>

fun attribute_sets :: "call list \<Rightarrow> attribs list" where
  "attribute_sets [] = []"
| "attribute_sets (Ev_SetConsoleTextAttribute a # cs) = a # attribute_sets cs"
| "attribute_sets (c # cs) = attribute_sets cs"

text \<open>The colour ranges a formatted message carries: the first \<open>num_start_ranges\<close> pairs.\<close>

definition ranges_of :: "log_msg \<Rightarrow> (nat \<times> nat) list" where
  "ranges_of msg =
     zip (take (num_start_ranges msg) (color_ranges_start msg))
         (take (num_start_ranges msg) (color_ranges_end msg))"

text \<open>
  Ranges are well ordered and in bounds when, from \<open>lo\<close> on, every start is at most its
  end, every end at most the next start, and the last end at most \<open>hi\<close>.
\<close>

fun well_ordered :: "nat \<Rightarrow> (nat \<times> nat) list \<Rightarrow> nat \<Rightarrow> bool" where
  "well_ordered lo [] hi = (lo \<le> hi)"
| "well_ordered lo ((a, b) # rs) hi = (lo \<le> a \<and> a \<le> b \<and> well_ordered b rs hi)"

text \<open>
  Every segment of the walk, the prefix, each range, each gap and the tail, is shorter
  than \<open>2 ^ 32\<close> bytes, so that its size is unchanged by the cast to a
  \<^verbatim>\<open>DWORD\<close>.
\<close>

fun segments_fit :: "nat \<Rightarrow> (nat \<times> nat) list \<Rightarrow> nat \<Rightarrow> bool" where
  "segments_fit lo [] hi = (hi - lo < 2 ^ 32)"
| "segments_fit lo ((a, b) # rs) hi = (a - lo < 2 ^ 32 \<and> b - a < 2 ^ 32 \<and> segments_fit b rs hi)"

subsection \<open>The walk over the buffer, as the specification words it\<close>

text \<open>
  The specification's account of step 7 of \<^verbatim>\<open>log\<close>, written independently of the
  code above, to be compared with it: the prefix before the first range uncoloured, then
  for each range apply the colour, write the bytes of the range, restore, and write the
  uncoloured gap up to the next range or, after the last range, up to the end of the buffer.
  An empty segment is not written.
\<close>

definition slice :: "memory_buf_t \<Rightarrow> nat \<Rightarrow> nat \<Rightarrow> memory_buf_t" where
  "slice formatted a b = take (b - a) (drop a formatted)"

definition plain_span :: "memory_buf_t \<Rightarrow> nat \<Rightarrow> nat \<Rightarrow> call list" where
  "plain_span formatted a b = (if a < b then [Ev_WriteConsoleA (slice formatted a b)] else [])"

definition colored_span :: "memory_buf_t \<Rightarrow> attribs \<Rightarrow> attribs \<Rightarrow> nat \<Rightarrow> nat \<Rightarrow> call list" where
  "colored_span formatted applied restored a b =
     [Ev_GetConsoleScreenBufferInfo, Ev_SetConsoleTextAttribute applied]
     @ plain_span formatted a b
     @ [Ev_SetConsoleTextAttribute restored]"

fun spec_spans :: "memory_buf_t \<Rightarrow> attribs \<Rightarrow> attribs \<Rightarrow> (nat \<times> nat) list \<Rightarrow> call list" where
  "spec_spans formatted applied restored [] = []"
| "spec_spans formatted applied restored [(a, b)] =
     colored_span formatted applied restored a b @ plain_span formatted b (length formatted)"
| "spec_spans formatted applied restored ((a, b) # (a', b') # rs) =
     colored_span formatted applied restored a b @ plain_span formatted b a'
     @ spec_spans formatted applied restored ((a', b') # rs)"

definition spec_walk :: "memory_buf_t \<Rightarrow> attribs \<Rightarrow> attribs \<Rightarrow> (nat \<times> nat) list \<Rightarrow> call list" where
  "spec_walk formatted applied restored rs =
     (case rs of
        [] \<Rightarrow> colored_span formatted applied restored 0 (length formatted)
      | (a, b) # _ \<Rightarrow> plain_span formatted 0 a @ spec_spans formatted applied restored rs)"

text \<open>
  What one operation of the sink may do to the device: it adds calls, and it leaves the
  device's answers as they were and, on a device that answers the attribute query, the
  text attributes as well.
\<close>

definition step_inv :: "device \<Rightarrow> device \<Rightarrow> bool" where
  "step_inv d d' =
     ((\<exists>rest. calls d' = calls d @ rest)
      \<and> console_mode_ok d' = console_mode_ok d
      \<and> buffer_info_ok d' = buffer_info_ok d
      \<and> set_attribute_ok d' = set_attribute_ok d
      \<and> (buffer_info_ok d \<longrightarrow> wAttributes d' = wAttributes d))"

text \<open>The bytes delivered by a run, or its fault.\<close>

definition delivered :: "fault + device \<Rightarrow> fault + memory_buf_t" where
  "delivered r = (case r of Inl e \<Rightarrow> Inl e | Inr d \<Rightarrow> Inr (written (calls d)))"

definition log_delivered :: "fault + (log_msg \<times> device) \<Rightarrow> fault + (log_msg \<times> memory_buf_t)" where
  "log_delivered r = (case r of Inl e \<Rightarrow> Inl e | Inr (m, d) \<Rightarrow> Inr (m, written (calls d)))"

subsection \<open>The calls of the colourised branch, as the code makes them\<close>

text \<open>The write call \<^verbatim>\<open>print_range_\<close> issues for a range, if any, as the code sizes it.\<close>

definition issued :: "memory_buf_t \<Rightarrow> nat \<Rightarrow> nat \<Rightarrow> call list" where
  "issued formatted a b =
     (if a < b then [Ev_WriteConsoleA (take (DWORD (b - a)) (drop a formatted))] else [])"

text \<open>
  The calls of one coloured span as the code makes them: the opening calls of
  \<^verbatim>\<open>set_foreground_color_\<close>, the write of the range, and the restore.
\<close>

definition span_trace :: "call list \<Rightarrow> attribs \<Rightarrow> memory_buf_t \<Rightarrow> nat \<Rightarrow> nat \<Rightarrow> call list" where
  "span_trace opening restored formatted a b =
     opening @ issued formatted a b @ [Ev_SetConsoleTextAttribute restored]"

text \<open>Where the gap after range \<open>i\<close> ends (lines 87-94).\<close>

definition next_start :: "log_msg \<Rightarrow> memory_buf_t \<Rightarrow> nat \<Rightarrow> nat" where
  "next_start msg formatted i =
     (if i + 1 < num_start_ranges msg then color_ranges_start msg ! (i + 1)
      else length formatted)"

text \<open>The calls of one round of the loop: the span of range \<open>i\<close> and the gap after it.\<close>

definition step_trace :: "call list \<Rightarrow> attribs \<Rightarrow> memory_buf_t \<Rightarrow> log_msg \<Rightarrow> nat \<Rightarrow> call list" where
  "step_trace opening restored formatted msg i =
     span_trace opening restored formatted (color_ranges_start msg ! i) (color_ranges_end msg ! i)
     @ issued formatted (color_ranges_end msg ! i) (next_start msg formatted i)"

text \<open>
  The calls of the colourised branch (lines 73-104): with no range one span over the whole
  buffer, otherwise the prefix and one round per range.
\<close>

definition walk_trace :: "call list \<Rightarrow> attribs \<Rightarrow> memory_buf_t \<Rightarrow> log_msg \<Rightarrow> call list" where
  "walk_trace opening restored formatted msg =
     (if num_start_ranges msg = 0 then span_trace opening restored formatted 0 (length formatted)
      else issued formatted 0 (color_ranges_start msg ! 0)
           @ concat (map (step_trace opening restored formatted msg) [0..<num_start_ranges msg]))"

text \<open>
  The device after a coloured span, but for the calls: as before when the attribute query
  is answered (the restore sets what was captured) or attribute changes are not accepted,
  and with the white default otherwise.
\<close>

definition settled :: "device \<Rightarrow> device" where
  "settled d =
     (if \<not> buffer_info_ok d \<and> set_attribute_ok d then d\<lparr>wAttributes := 0x0007\<rparr> else d)"

text \<open>What \<^verbatim>\<open>set_foreground_color_\<close> calls, and what it returns, on a device.\<close>

definition span_open :: "device \<Rightarrow> attribs \<Rightarrow> call list" where
  "span_open d c =
     (if buffer_info_ok d
      then [Ev_GetConsoleScreenBufferInfo,
            Ev_SetConsoleTextAttribute (c OR (wAttributes d AND 0xfff0))]
      else [Ev_GetConsoleScreenBufferInfo])"

definition span_restore :: "device \<Rightarrow> attribs" where
  "span_restore d = (if buffer_info_ok d then wAttributes d else 0x0007)"


subsection \<open>Concrete inputs\<close>

text \<open>
  A formatter that returns a fixed buffer and fixed range annotations, a console, a sink
  with the default colour table, and a message that still carries range data of an
  earlier call. The theorems below are instantiated on them.
\<close>

definition stub_formatter ::
  "nat \<Rightarrow> nat list \<Rightarrow> nat \<Rightarrow> nat list \<Rightarrow> memory_buf_t \<Rightarrow> format_fn" where
  "stub_formatter ns starts ne ends buf msg =
     (msg\<lparr>num_start_ranges := ns, color_ranges_start := starts,
          num_end_ranges := ne, color_ranges_end := ends\<rparr>, buf)"

definition console0 :: device where
  "console0 = \<lparr>console_mode_ok = True, buffer_info_ok = True, set_attribute_ok = True,
               wAttributes = 0x0002, calls = []\<rparr>"

definition sink0 :: "handle \<Rightarrow> bool \<Rightarrow> bool \<Rightarrow> format_fn \<Rightarrow> wincolor_sink" where
  "sink0 h c sdc fmt =
     \<lparr>out_handle = h, in_console = c, should_do_colors = sdc,
      colors = default_colors, formatter = fmt\<rparr>"

definition msg0 :: log_msg where
  "msg0 = \<lparr>level = warn, payload = [], num_start_ranges = 2, color_ranges_start = [1, 4],
            num_end_ranges = 1, color_ranges_end = [3, 9]\<rparr>"

section \<open>Properties\<close>

subsection \<open>Auxiliary facts\<close>

lemma and_then_simps [simp]:
  "and_then (Inr x) f = f x"
  "and_then (Inl e) f = Inl e"
  by (simp_all add: and_then_def)

lemma DWORD_small: "n < 2 ^ 32 \<Longrightarrow> DWORD n = n"
  by (simp add: DWORD_def)

lemma DWORD_le: "DWORD n \<le> n"
  by (simp add: DWORD_def)

lemma record_call_neq: "record_call c d \<noteq> d"
proof
  assume "record_call c d = d"
  then have "calls (record_call c d) = calls d" by simp
  then show False by (simp add: record_call_def)
qed

lemma write_to_file_eq:
  "write_to_file formatted d =
     Inr (record_call (Ev_WriteFile (take (DWORD (length formatted)) formatted)) d)"
  by (simp add: write_to_file_def WriteFile_def DWORD_le)

lemma print_range_noop: "endp \<le> start \<Longrightarrow> print_range formatted start endp d = Inr d"
  by (simp add: print_range_def)

lemma print_range_call:
  "start < endp \<Longrightarrow>
   print_range formatted start endp d = WriteConsoleA formatted start (DWORD (endp - start)) d"
  by (simp add: print_range_def)

lemma WriteConsoleA_neq: "WriteConsoleA formatted start sz d \<noteq> Inr d"
  by (simp add: WriteConsoleA_def record_call_neq)

lemma print_range_in_bounds:
  assumes "a \<le> b" "b \<le> length formatted" "b - a < 2 ^ 32"
  shows "print_range formatted a b d = Inr (d\<lparr>calls := calls d @ plain_span formatted a b\<rparr>)"
proof (cases "a < b")
  case True
  have "b - a < 2 ^ 32" using assms by simp
  then have "DWORD (b - a) = b - a" by (rule DWORD_small)
  with True assms show ?thesis
    by (simp add: print_range_def WriteConsoleA_def record_call_def plain_span_def slice_def)
next
  case False
  then show ?thesis by (simp add: print_range_def plain_span_def)
qed

lemma set_foreground_color_ok:
  "buffer_info_ok d \<Longrightarrow>
   set_foreground_color c d =
     (wAttributes d,
      d\<lparr>wAttributes :=
          (if set_attribute_ok d then c OR (wAttributes d AND 0xfff0) else wAttributes d),
        calls := calls d @ [Ev_GetConsoleScreenBufferInfo,
                            Ev_SetConsoleTextAttribute (c OR (wAttributes d AND 0xfff0))]\<rparr>)"
  by (simp add: set_foreground_color_def GetConsoleScreenBufferInfo_def
      SetConsoleTextAttribute_def record_call_def Let_def)

lemma set_foreground_color_failed:
  "\<not> buffer_info_ok d \<Longrightarrow>
   set_foreground_color c d = (0x0007, d\<lparr>calls := calls d @ [Ev_GetConsoleScreenBufferInfo]\<rparr>)"
  by (simp add: set_foreground_color_def GetConsoleScreenBufferInfo_def record_call_def
      FOREGROUND_RED_def FOREGROUND_GREEN_def FOREGROUND_BLUE_def)

lemma color_step_ok:
  assumes ok: "buffer_info_ok d"
    and i: "i < length (color_ranges_start msg)" "i < length (color_ranges_end msg)"
    and ab: "color_ranges_start msg ! i = a" "color_ranges_end msg ! i = b"
    and nxt: "nxt = (if i + 1 < num_start_ranges msg then color_ranges_start msg ! (i + 1) else length formatted)"
    and i1: "i + 1 < num_start_ranges msg \<Longrightarrow> i + 1 < length (color_ranges_start msg)"
    and ord: "a \<le> b" "b \<le> nxt" "nxt \<le> length formatted"
    and fit: "b - a < 2 ^ 32" "nxt - b < 2 ^ 32"
  shows "color_step s msg formatted i d =
     Inr (d\<lparr>calls := calls d
                @ colored_span formatted (colors s (level msg) OR (wAttributes d AND 0xfff0)) (wAttributes d) a b
                @ plain_span formatted b nxt\<rparr>)"
proof -
  have b_len: "b \<le> length formatted" using ord by simp
  have first: "\<And>e. print_range formatted a b e = Inr (e\<lparr>calls := calls e @ plain_span formatted a b\<rparr>)"
    using ord(1) b_len fit(1) by (rule print_range_in_bounds)
  have gap: "\<And>e. print_range formatted b nxt e = Inr (e\<lparr>calls := calls e @ plain_span formatted b nxt\<rparr>)"
    using ord(2,3) fit(2) by (rule print_range_in_bounds)
  show ?thesis
  proof (cases "i + 1 < num_start_ranges msg")
    case True
    with nxt have n: "color_ranges_start msg ! (i + 1) = nxt" by simp
    from True i1 have "i + 1 < length (color_ranges_start msg)" by simp
    with True ok i ab n show ?thesis
      by (simp add: color_step_def set_foreground_color_ok range_at_def Let_def
          first gap SetConsoleTextAttribute_def record_call_def colored_span_def)
  next
    case False
    with nxt have n: "length formatted = nxt" by simp
    from False ok i ab show ?thesis
      unfolding n [symmetric]
      by (simp add: color_step_def set_foreground_color_ok range_at_def Let_def
          first gap [unfolded n [symmetric]] SetConsoleTextAttribute_def record_call_def colored_span_def)
  qed
qed


lemma well_ordered_le: "well_ordered lo rs hi \<Longrightarrow> lo \<le> hi"
  by (induction lo rs hi rule: well_ordered.induct) auto

lemma length_ranges_of:
  "num_start_ranges msg \<le> length (color_ranges_start msg) \<Longrightarrow>
   num_start_ranges msg \<le> length (color_ranges_end msg) \<Longrightarrow>
   length (ranges_of msg) = num_start_ranges msg"
  by (simp add: ranges_of_def)

lemma nth_ranges_of:
  "num_start_ranges msg \<le> length (color_ranges_start msg) \<Longrightarrow>
   num_start_ranges msg \<le> length (color_ranges_end msg) \<Longrightarrow>
   i < num_start_ranges msg \<Longrightarrow>
   ranges_of msg ! i = (color_ranges_start msg ! i, color_ranges_end msg ! i)"
  by (simp add: ranges_of_def)

lemma color_loop_done: "\<not> i < num_start_ranges msg \<Longrightarrow> color_loop s msg formatted i d = Inr d"
  by (simp add: color_loop.simps)

lemma color_loop_step:
  "i < num_start_ranges msg \<Longrightarrow> color_step s msg formatted i d = Inr d' \<Longrightarrow>
   color_loop s msg formatted i d = color_loop s msg formatted (i + 1) d'"
  by (subst color_loop.simps) simp

lemma color_loop_fault:
  "i < num_start_ranges msg \<Longrightarrow> color_step s msg formatted i d = Inl e \<Longrightarrow>
   color_loop s msg formatted i d = Inl e"
  by (subst color_loop.simps) simp

lemma color_loop_spans:
  assumes ls: "num_start_ranges msg \<le> length (color_ranges_start msg)"
    and le: "num_start_ranges msg \<le> length (color_ranges_end msg)"
  shows "buffer_info_ok d \<Longrightarrow> i < num_start_ranges msg \<Longrightarrow>
     well_ordered lo (drop i (ranges_of msg)) (length formatted) \<Longrightarrow>
     segments_fit lo (drop i (ranges_of msg)) (length formatted) \<Longrightarrow>
     color_loop s msg formatted i d =
       Inr (d\<lparr>calls := calls d @ spec_spans formatted
               (colors s (level msg) OR (wAttributes d AND 0xfff0)) (wAttributes d)
               (drop i (ranges_of msg))\<rparr>)"
proof (induction "num_start_ranges msg - i" arbitrary: i d lo)
  case 0
  then show ?case by simp
next
  case (Suc k)
  let ?rs = "ranges_of msg"
  let ?a = "color_ranges_start msg ! i" and ?b = "color_ranges_end msg ! i"
  let ?app = "colors s (level msg) OR (wAttributes d AND 0xfff0)"
  have lrs: "length ?rs = num_start_ranges msg" using ls le by (rule length_ranges_of)
  have i: "i < num_start_ranges msg" by fact
  have cur: "drop i ?rs = (?a, ?b) # drop (Suc i) ?rs"
    using i lrs nth_ranges_of [OF ls le i] by (simp add: Cons_nth_drop_Suc [symmetric])
  from Suc.prems(3) have ab: "?a \<le> ?b" and rest: "well_ordered ?b (drop (Suc i) ?rs) (length formatted)"
    by (simp_all add: cur)
  from Suc.prems(4) have fab: "?b - ?a < 2 ^ 32"
    and frest: "segments_fit ?b (drop (Suc i) ?rs) (length formatted)"
    by (simp_all add: cur)
  show ?case
  proof (cases "i + 1 < num_start_ranges msg")
    case True
    let ?a' = "color_ranges_start msg ! (i + 1)" and ?b' = "color_ranges_end msg ! (i + 1)"
    have nxt: "drop (Suc i) ?rs = (?a', ?b') # drop (Suc (Suc i)) ?rs"
      using True lrs nth_ranges_of [OF ls le True] by (simp add: Cons_nth_drop_Suc [symmetric])
    from rest have ba': "?b \<le> ?a'" by (simp add: nxt)
    from rest have "well_ordered ?b' (drop (Suc (Suc i)) ?rs) (length formatted)" and "?a' \<le> ?b'"
      by (simp_all add: nxt)
    then have "?a' \<le> length formatted" using well_ordered_le by fastforce
    from frest have fgap: "?a' - ?b < 2 ^ 32" by (simp add: nxt)
    have step: "color_step s msg formatted i d =
        Inr (d\<lparr>calls := calls d @ colored_span formatted ?app (wAttributes d) ?a ?b
                  @ plain_span formatted ?b ?a'\<rparr>)"
      using Suc.prems(1) i ls le True ab ba' \<open>?a' \<le> length formatted\<close> fab fgap
      by (intro color_step_ok) simp_all
    let ?d' = "d\<lparr>calls := calls d @ colored_span formatted ?app (wAttributes d) ?a ?b
                  @ plain_span formatted ?b ?a'\<rparr>"
    have k: "k = num_start_ranges msg - (i + 1)" using Suc.hyps(2) by simp
    have ok': "buffer_info_ok ?d'" using Suc.prems(1) by simp
    have rest': "well_ordered ?b (drop (i + 1) ?rs) (length formatted)" using rest by simp
    have frest': "segments_fit ?b (drop (i + 1) ?rs) (length formatted)" using frest by simp
    have "color_loop s msg formatted (i + 1) ?d' =
       Inr (?d'\<lparr>calls := calls ?d' @ spec_spans formatted
               (colors s (level msg) OR (wAttributes ?d' AND 0xfff0)) (wAttributes ?d')
               (drop (i + 1) ?rs)\<rparr>)"
      using Suc.hyps(1) [OF k ok' True rest' frest'] .
    then show ?thesis
      by (simp add: color_loop_step [OF i step] cur nxt)
  next
    case False
    then have last: "drop (Suc i) ?rs = []" using lrs by simp
    from rest have bl: "?b \<le> length formatted" by (simp add: last)
    from frest have ftail: "length formatted - ?b < 2 ^ 32" by (simp add: last)
    have step: "color_step s msg formatted i d =
        Inr (d\<lparr>calls := calls d @ colored_span formatted ?app (wAttributes d) ?a ?b
                  @ plain_span formatted ?b (length formatted)\<rparr>)"
      using Suc.prems(1) i ls le False ab bl fab ftail
      by (intro color_step_ok) simp_all
    show ?thesis
      using False by (simp add: color_loop_step [OF i step] color_loop_done cur last)
  qed
qed

subsection \<open>Frame of the operations\<close>

lemma step_inv_refl: "step_inv d d"
  by (simp add: step_inv_def)

lemma step_inv_trans: "step_inv d d' \<Longrightarrow> step_inv d' d'' \<Longrightarrow> step_inv d d''"
  by (auto simp: step_inv_def)

lemma and_then_InrE:
  assumes "and_then r f = Inr y"
  obtains x where "r = Inr x" "f x = Inr y"
  using assms by (cases r) simp_all

lemma print_range_inv: "print_range formatted a b d = Inr d' \<Longrightarrow> step_inv d d'"
  by (auto simp: print_range_def WriteConsoleA_def record_call_def step_inv_def Let_def split: if_splits)

lemma write_to_file_inv: "write_to_file formatted d = Inr d' \<Longrightarrow> step_inv d d'"
  by (auto simp: write_to_file_eq record_call_def step_inv_def)

lemma colored_inv:
  assumes "set_foreground_color c d = (orig, d1)"
    and "print_range formatted a b d1 = Inr d2"
  shows "step_inv d (SetConsoleTextAttribute orig d2)"
proof -
  from assms(2) have p: "step_inv d1 d2" by (rule print_range_inv)
  show ?thesis
  proof (cases "buffer_info_ok d")
    case True
    with assms(1) have "orig = wAttributes d" and
      d1: "d1 = d\<lparr>wAttributes := (if set_attribute_ok d then c OR (wAttributes d AND 0xfff0) else wAttributes d),
        calls := calls d @ [Ev_GetConsoleScreenBufferInfo,
                            Ev_SetConsoleTextAttribute (c OR (wAttributes d AND 0xfff0))]\<rparr>"
      using set_foreground_color_ok [OF True, of c] by auto
    with p True show ?thesis
      by (auto simp: step_inv_def SetConsoleTextAttribute_def record_call_def)
  next
    case False
    with assms(1) have d1: "d1 = d\<lparr>calls := calls d @ [Ev_GetConsoleScreenBufferInfo]\<rparr>"
      using set_foreground_color_failed [OF False, of c] by auto
    with p False show ?thesis
      by (auto simp: step_inv_def SetConsoleTextAttribute_def record_call_def)
  qed
qed

lemma color_step_inv:
  assumes "color_step s msg formatted i d = Inr d'"
  shows "step_inv d d'"
proof -
  obtain orig d1 where sf: "set_foreground_color (colors s (level msg)) d = (orig, d1)"
    by (cases "set_foreground_color (colors s (level msg)) d")
  from assms sf obtain a b d2 where
    pr: "print_range formatted a b d1 = Inr d2"
    and tl: "(if i + 1 < num_start_ranges msg then
               and_then (range_at (color_ranges_start msg) (i + 1)) (\<lambda>next_start.
                 print_range formatted b next_start (SetConsoleTextAttribute orig d2))
             else print_range formatted b (length formatted) (SetConsoleTextAttribute orig d2)) = Inr d'"
    by (auto simp: color_step_def Let_def elim!: and_then_InrE)
  have 1: "step_inv d (SetConsoleTextAttribute orig d2)" using sf pr by (rule colored_inv)
  from tl obtain c where "print_range formatted b c (SetConsoleTextAttribute orig d2) = Inr d'"
    by (auto split: if_splits elim!: and_then_InrE)
  then have "step_inv (SetConsoleTextAttribute orig d2) d'" by (rule print_range_inv)
  with 1 show ?thesis by (rule step_inv_trans)
qed

lemma color_loop_inv: "color_loop s msg formatted i d = Inr d' \<Longrightarrow> step_inv d d'"
proof (induction s msg formatted i d rule: color_loop.induct)
  case (1 s msg formatted i d)
  show ?case
  proof (cases "i < num_start_ranges msg")
    case False
    with "1.prems" show ?thesis by (simp add: color_loop_done step_inv_refl)
  next
    case True
    show ?thesis
    proof (cases "color_step s msg formatted i d")
      case (Inl e)
      with True "1.prems" show ?thesis by (simp add: color_loop_fault)
    next
      case (Inr d1)
      with True "1.prems" have "color_loop s msg formatted (i + 1) d1 = Inr d'"
        by (simp add: color_loop_step)
      with "1.IH" True Inr have "step_inv d1 d'" by simp
      moreover from Inr have "step_inv d d1" by (rule color_step_inv)
      ultimately show ?thesis by (rule step_inv_trans [rotated])
    qed
  qed
qed

lemma print_colored_inv:
  assumes "print_colored s msg formatted d = Inr d'"
  shows "step_inv d d'"
proof (cases "num_start_ranges msg > 0")
  case True
  with assms obtain a d1 where "print_range formatted 0 a d = Inr d1"
    "color_loop s msg formatted 0 d1 = Inr d'"
    by (auto simp: print_colored_def elim!: and_then_InrE)
  then show ?thesis using print_range_inv color_loop_inv step_inv_trans by blast
next
  case False
  obtain orig d1 where sf: "set_foreground_color (colors s (level msg)) d = (orig, d1)"
    by (cases "set_foreground_color (colors s (level msg)) d")
  with False assms obtain d2 where "print_range formatted 0 (length formatted) d1 = Inr d2"
    "d' = SetConsoleTextAttribute orig d2"
    by (auto simp: print_colored_def elim!: and_then_InrE)
  with sf show ?thesis using colored_inv by blast
qed

lemma log_body_inv:
  assumes "(if \<not> in_console s then write_to_file formatted d
            else if should_do_colors s \<and> num_start_ranges msg = num_end_ranges msg
            then print_colored s msg formatted d
            else write_to_file formatted d) = Inr d'"
  shows "step_inv d d'"
  using assms by (auto split: if_splits intro: write_to_file_inv print_colored_inv)

lemma log_valid_unfold:
  assumes "out_handle s \<noteq> nullptr" "out_handle s \<noteq> INVALID_HANDLE_VALUE"
    and "formatter s (reset_ranges M msg) = (msg2, formatted)"
  shows "log M s msg d =
     and_then
       (if \<not> in_console s
        then write_to_file formatted (d\<lparr>calls := calls d @ [Ev_lock, Ev_format (reset_ranges M msg)]\<rparr>)
        else if should_do_colors s \<and> num_start_ranges msg2 = num_end_ranges msg2
        then print_colored s msg2 formatted (d\<lparr>calls := calls d @ [Ev_lock, Ev_format (reset_ranges M msg)]\<rparr>)
        else write_to_file formatted (d\<lparr>calls := calls d @ [Ev_lock, Ev_format (reset_ranges M msg)]\<rparr>))
       (\<lambda>d3. Inr (msg2, record_call Ev_unlock d3))"
  using assms by (simp add: log_def Let_def record_call_def)

lemma log_inv:
  assumes "out_handle s \<noteq> nullptr" "out_handle s \<noteq> INVALID_HANDLE_VALUE"
    and "log M s msg d = Inr (m', d')"
  shows "m' = fst (formatter s (reset_ranges M msg))
     \<and> (\<exists>rest. calls d' = calls d @ Ev_lock # Ev_format (reset_ranges M msg) # rest @ [Ev_unlock])
     \<and> (buffer_info_ok d \<longrightarrow> wAttributes d' = wAttributes d)"
proof -
  obtain msg2 formatted where f: "formatter s (reset_ranges M msg) = (msg2, formatted)"
    by (cases "formatter s (reset_ranges M msg)")
  let ?d2 = "d\<lparr>calls := calls d @ [Ev_lock, Ev_format (reset_ranges M msg)]\<rparr>"
  from assms(3) obtain d3 where
    body: "(if \<not> in_console s then write_to_file formatted ?d2
            else if should_do_colors s \<and> num_start_ranges msg2 = num_end_ranges msg2
            then print_colored s msg2 formatted ?d2
            else write_to_file formatted ?d2) = Inr d3"
    and res: "m' = msg2" "d' = record_call Ev_unlock d3"
    unfolding log_valid_unfold [OF assms(1,2) f] by (auto elim!: and_then_InrE)
  from body have "step_inv ?d2 d3" by (rule log_body_inv)
  with res f show ?thesis
    by (auto simp: step_inv_def record_call_def)
qed

subsection \<open>The bytes delivered do not depend on the device's answers\<close>

lemma written_append: "written (xs @ ys) = written xs @ written ys"
  by (induction xs rule: written.induct) simp_all

lemma attribute_sets_append: "attribute_sets (xs @ ys) = attribute_sets xs @ attribute_sets ys"
  by (induction xs rule: attribute_sets.induct) simp_all

lemma delivered_simps [simp]:
  "delivered (Inl e) = Inl e"
  "delivered (Inr d) = Inr (written (calls d))"
  by (simp_all add: delivered_def)

lemma print_range_delivered:
  "written (calls d) = written (calls e) \<Longrightarrow>
   delivered (print_range formatted a b d) = delivered (print_range formatted a b e)"
  by (simp add: print_range_def WriteConsoleA_def record_call_def Let_def written_append)

lemma write_to_file_delivered:
  "written (calls d) = written (calls e) \<Longrightarrow>
   delivered (write_to_file formatted d) = delivered (write_to_file formatted e)"
  by (simp add: write_to_file_eq record_call_def written_append)

lemma set_foreground_color_written:
  "written (calls (snd (set_foreground_color c d))) = written (calls d)"
  by (cases "buffer_info_ok d")
    (simp_all add: set_foreground_color_ok set_foreground_color_failed written_append)

lemma SetConsoleTextAttribute_written:
  "written (calls (SetConsoleTextAttribute a d)) = written (calls d)"
  by (simp add: SetConsoleTextAttribute_def record_call_def written_append)

lemma and_then_delivered:
  assumes "delivered r = delivered r'"
    and "\<And>x y. r = Inr x \<Longrightarrow> r' = Inr y \<Longrightarrow> written (calls x) = written (calls y) \<Longrightarrow>
           delivered (f x) = delivered (g y)"
  shows "delivered (and_then r f) = delivered (and_then r' g)"
  using assms by (cases r; cases r') simp_all

lemma color_step_delivered:
  assumes "written (calls d) = written (calls e)"
  shows "delivered (color_step s msg formatted i d) = delivered (color_step s msg formatted i e)"
proof -
  obtain od d1 where sd: "set_foreground_color (colors s (level msg)) d = (od, d1)"
    by (cases "set_foreground_color (colors s (level msg)) d")
  obtain oe e1 where se: "set_foreground_color (colors s (level msg)) e = (oe, e1)"
    by (cases "set_foreground_color (colors s (level msg)) e")
  have w1: "written (calls d1) = written (calls e1)"
    using set_foreground_color_written [of "colors s (level msg)" d]
      set_foreground_color_written [of "colors s (level msg)" e] sd se assms by simp
  show ?thesis
  proof (cases "range_at (color_ranges_start msg) i")
    case (Inl x)
    then show ?thesis by (simp add: color_step_def sd se)
  next
    case a: (Inr a)
    show ?thesis
    proof (cases "range_at (color_ranges_end msg) i")
      case (Inl x)
      then show ?thesis by (simp add: color_step_def sd se a)
    next
      case b: (Inr b)
      have tail: "delivered
           (if i + 1 < num_start_ranges msg then
               and_then (range_at (color_ranges_start msg) (i + 1)) (\<lambda>next_start.
                 print_range formatted b next_start (SetConsoleTextAttribute od x))
             else print_range formatted b (length formatted) (SetConsoleTextAttribute od x))
         = delivered
           (if i + 1 < num_start_ranges msg then
               and_then (range_at (color_ranges_start msg) (i + 1)) (\<lambda>next_start.
                 print_range formatted b next_start (SetConsoleTextAttribute oe y))
             else print_range formatted b (length formatted) (SetConsoleTextAttribute oe y))"
        if "written (calls x) = written (calls y)" for x y
      proof -
        have "written (calls (SetConsoleTextAttribute od x)) = written (calls (SetConsoleTextAttribute oe y))"
          using that by (simp add: SetConsoleTextAttribute_written)
        then have "\<And>c. delivered (print_range formatted b c (SetConsoleTextAttribute od x))
            = delivered (print_range formatted b c (SetConsoleTextAttribute oe y))"
          by (rule print_range_delivered)
        then show ?thesis
          by (cases "range_at (color_ranges_start msg) (i + 1)") simp_all
      qed
      have "delivered (and_then (print_range formatted a b d1) (\<lambda>d2.
            (if i + 1 < num_start_ranges msg then
               and_then (range_at (color_ranges_start msg) (i + 1)) (\<lambda>next_start.
                 print_range formatted b next_start (SetConsoleTextAttribute od d2))
             else print_range formatted b (length formatted) (SetConsoleTextAttribute od d2))))
        = delivered (and_then (print_range formatted a b e1) (\<lambda>d2.
            (if i + 1 < num_start_ranges msg then
               and_then (range_at (color_ranges_start msg) (i + 1)) (\<lambda>next_start.
                 print_range formatted b next_start (SetConsoleTextAttribute oe d2))
             else print_range formatted b (length formatted) (SetConsoleTextAttribute oe d2))))"
        by (rule and_then_delivered [OF print_range_delivered [OF w1]]) (rule tail)
      then show ?thesis
        by (simp add: color_step_def sd se a b Let_def)
    qed
  qed
qed

lemma color_loop_delivered:
  "written (calls d) = written (calls e) \<Longrightarrow>
   delivered (color_loop s msg formatted i d) = delivered (color_loop s msg formatted i e)"
proof (induction s msg formatted i d arbitrary: e rule: color_loop.induct)
  case (1 s msg formatted i d)
  show ?case
  proof (cases "i < num_start_ranges msg")
    case False
    with "1.prems" show ?thesis by (simp add: color_loop_done)
  next
    case True
    have st: "delivered (color_step s msg formatted i d) = delivered (color_step s msg formatted i e)"
      using "1.prems" by (rule color_step_delivered)
    show ?thesis
    proof (cases "color_step s msg formatted i d")
      case (Inl x)
      with st have "color_step s msg formatted i e = Inl x"
        by (cases "color_step s msg formatted i e") simp_all
      with Inl True show ?thesis by (simp add: color_loop_fault)
    next
      case (Inr d1)
      with st obtain e1 where e1: "color_step s msg formatted i e = Inr e1"
        and w: "written (calls d1) = written (calls e1)"
        by (cases "color_step s msg formatted i e") simp_all
      have "delivered (color_loop s msg formatted (i + 1) d1) = delivered (color_loop s msg formatted (i + 1) e1)"
        using "1.IH" [OF True Inr w] .
      then show ?thesis
        by (simp add: color_loop_step [OF True Inr] color_loop_step [OF True e1])
    qed
  qed
qed

lemma print_colored_delivered:
  assumes "written (calls d) = written (calls e)"
  shows "delivered (print_colored s msg formatted d) = delivered (print_colored s msg formatted e)"
proof (cases "num_start_ranges msg > 0")
  case True
  have "delivered (and_then (print_range formatted 0 a d) (\<lambda>d1. color_loop s msg formatted 0 d1))
      = delivered (and_then (print_range formatted 0 a e) (\<lambda>d1. color_loop s msg formatted 0 d1))" for a
    by (rule and_then_delivered [OF print_range_delivered [OF assms]]) (rule color_loop_delivered)
  with True show ?thesis
    by (cases "range_at (color_ranges_start msg) 0") (simp_all add: print_colored_def)
next
  case False
  obtain od d1 where sd: "set_foreground_color (colors s (level msg)) d = (od, d1)"
    by (cases "set_foreground_color (colors s (level msg)) d")
  obtain oe e1 where se: "set_foreground_color (colors s (level msg)) e = (oe, e1)"
    by (cases "set_foreground_color (colors s (level msg)) e")
  have w1: "written (calls d1) = written (calls e1)"
    using set_foreground_color_written [of "colors s (level msg)" d]
      set_foreground_color_written [of "colors s (level msg)" e] sd se assms by simp
  have "delivered (and_then (print_range formatted 0 (length formatted) d1) (\<lambda>d2. Inr (SetConsoleTextAttribute od d2)))
      = delivered (and_then (print_range formatted 0 (length formatted) e1) (\<lambda>d2. Inr (SetConsoleTextAttribute oe d2)))"
    by (rule and_then_delivered [OF print_range_delivered [OF w1]])
      (simp add: SetConsoleTextAttribute_written)
  with False show ?thesis by (simp add: print_colored_def sd se)
qed

lemma log_delivered_cong:
  assumes "written (calls d) = written (calls e)"
  shows "log_delivered (log M s msg d) = log_delivered (log M s msg e)"
proof (cases "out_handle s = nullptr \<or> out_handle s = INVALID_HANDLE_VALUE")
  case True
  with assms show ?thesis by (simp add: log_def log_delivered_def)
next
  case False
  obtain msg2 formatted where f: "formatter s (reset_ranges M msg) = (msg2, formatted)"
    by (cases "formatter s (reset_ranges M msg)")
  let ?pre = "[Ev_lock, Ev_format (reset_ranges M msg)]"
  let ?body = "\<lambda>d. (if \<not> in_console s then write_to_file formatted d
            else if should_do_colors s \<and> num_start_ranges msg2 = num_end_ranges msg2
            then print_colored s msg2 formatted d
            else write_to_file formatted d)"
  have w: "written (calls (d\<lparr>calls := calls d @ ?pre\<rparr>)) = written (calls (e\<lparr>calls := calls e @ ?pre\<rparr>))"
    using assms by (simp add: written_append)
  have b: "delivered (?body (d\<lparr>calls := calls d @ ?pre\<rparr>)) = delivered (?body (e\<lparr>calls := calls e @ ?pre\<rparr>))"
    using w by (simp add: write_to_file_delivered print_colored_delivered)
  have k: "log_delivered (and_then r (\<lambda>d3. Inr (msg2, record_call Ev_unlock d3)))
      = log_delivered (and_then r' (\<lambda>d3. Inr (msg2, record_call Ev_unlock d3)))"
    if "delivered r = delivered r'" for r r'
    using that by (cases r; cases r') (simp_all add: log_delivered_def record_call_def written_append)
  from False have v: "out_handle s \<noteq> nullptr" "out_handle s \<noteq> INVALID_HANDLE_VALUE" by simp_all
  show ?thesis
    unfolding log_valid_unfold [OF v f] by (rule k [OF b])
qed

subsection \<open>The plain paths\<close>

lemma take_DWORD_all: "length formatted < 2 ^ 32 \<Longrightarrow> take (DWORD (length formatted)) formatted = formatted"
  by (simp add: DWORD_small)

lemma log_plain_paths:
  assumes "out_handle s \<noteq> nullptr" "out_handle s \<noteq> INVALID_HANDLE_VALUE"
    and "formatter s (reset_ranges M msg) = (msg2, formatted)"
    and "\<not> in_console s \<or> \<not> should_do_colors s \<or> num_start_ranges msg2 \<noteq> num_end_ranges msg2"
  shows "log M s msg d =
     Inr (msg2, d\<lparr>calls := calls d @ [Ev_lock, Ev_format (reset_ranges M msg),
                     Ev_WriteFile (take (DWORD (length formatted)) formatted), Ev_unlock]\<rparr>)"
  using assms by (auto simp: log_def Let_def write_to_file_eq record_call_def)

lemma set_color_mode_eq:
  "set_color_mode mode s d =
     (s\<lparr>should_do_colors :=
          (case mode of
             always \<Rightarrow> True
           | automatic \<Rightarrow> fst (GetConsoleMode (out_handle s) (record_call Ev_lock d))
           | never \<Rightarrow> False)\<rparr>,
      d\<lparr>calls := calls d @ (if mode = automatic then [Ev_lock, Ev_GetConsoleMode, Ev_unlock]
                             else [Ev_lock, Ev_unlock])\<rparr>)"
  by (cases mode)
    (simp_all add: set_color_mode_def set_color_mode_impl_def GetConsoleMode_def record_call_def)

lemma reset_msg0: "reset_ranges 2 msg0 = \<lparr>level = warn, payload = [], num_start_ranges = 0, color_ranges_start = [0, 0],
            num_end_ranges = 0, color_ranges_end = [0, 0]\<rparr>"
  by (simp add: reset_ranges_def msg0_def numeral_2_eq_2)


subsection \<open>The walk of the specification and the colourised branch\<close>

lemma written_plain_span: "written (plain_span formatted a b) = slice formatted a b"
  by (simp add: plain_span_def slice_def)

lemma attribute_sets_plain_span: "attribute_sets (plain_span formatted a b) = []"
  by (simp add: plain_span_def)

lemma written_colored_span: "written (colored_span formatted applied restored a b) = slice formatted a b"
  by (simp add: colored_span_def written_append written_plain_span)

lemma attribute_sets_colored_span:
  "attribute_sets (colored_span formatted applied restored a b) = [applied, restored]"
  by (simp add: colored_span_def attribute_sets_append attribute_sets_plain_span)

lemma slice_drop: "a \<le> b \<Longrightarrow> slice formatted a b @ drop b formatted = drop a formatted"
proof -
  assume "a \<le> b"
  then have "drop b formatted = drop (b - a) (drop a formatted)" by simp
  then show ?thesis unfolding slice_def by (simp only: append_take_drop_id)
qed

lemma slice_to_end: "slice formatted a (length formatted) = drop a formatted"
  by (simp add: slice_def)

lemma written_spec_spans:
  "well_ordered lo ((a, b) # rs) (length formatted) \<Longrightarrow>
   written (spec_spans formatted applied restored ((a, b) # rs)) = drop a formatted"
proof (induction rs arbitrary: lo a b)
  case Nil
  then show ?case
    by (simp add: written_append written_colored_span written_plain_span slice_to_end slice_drop)
next
  case (Cons r rs)
  obtain a' b' where r: "r = (a', b')" by (cases r)
  from Cons.prems have ab: "a \<le> b" and ba': "b \<le> a'"
    and rest: "well_ordered b ((a', b') # rs) (length formatted)"
    by (simp_all add: r)
  have "written (spec_spans formatted applied restored ((a', b') # rs)) = drop a' formatted"
    using rest by (rule Cons.IH)
  then show ?case
    using ab ba'
    by (simp add: r written_append written_colored_span written_plain_span slice_drop)
qed

lemma attribute_sets_spec_spans:
  "attribute_sets (spec_spans formatted applied restored rs)
     = concat (map (\<lambda>r. [applied, restored]) rs)"
  by (induction formatted applied restored rs rule: spec_spans.induct)
    (simp_all add: attribute_sets_append attribute_sets_colored_span attribute_sets_plain_span)

lemma written_spec_walk:
  "well_ordered 0 rs (length formatted) \<Longrightarrow> written (spec_walk formatted applied restored rs) = formatted"
proof (cases rs)
  case Nil
  then show ?thesis by (simp add: spec_walk_def written_colored_span slice_def)
next
  case (Cons r rs')
  assume wo: "well_ordered 0 rs (length formatted)"
  obtain a b where r: "r = (a, b)" by (cases r)
  have "written (spec_spans formatted applied restored ((a, b) # rs')) = drop a formatted"
    using wo unfolding Cons r by (rule written_spec_spans)
  then show ?thesis
    by (simp add: spec_walk_def Cons r written_append written_plain_span slice_def)
qed

lemma attribute_sets_spec_walk:
  "rs \<noteq> [] \<Longrightarrow> attribute_sets (spec_walk formatted applied restored rs)
     = concat (map (\<lambda>r. [applied, restored]) rs)"
  by (cases rs)
    (auto simp: spec_walk_def attribute_sets_append attribute_sets_plain_span
      attribute_sets_spec_spans [of _ _ _ "x # xs" for x xs, simplified])

lemma spec_walk_Cons:
  "rs = (a, b) # rs' \<Longrightarrow>
   spec_walk formatted x y rs = plain_span formatted 0 a @ spec_spans formatted x y rs"
  by (simp add: spec_walk_def)

lemma print_colored_ranges:
  assumes n: "0 < num_start_ranges msg"
    and ls: "num_start_ranges msg \<le> length (color_ranges_start msg)"
    and le: "num_start_ranges msg \<le> length (color_ranges_end msg)"
    and wo: "well_ordered 0 (ranges_of msg) (length formatted)"
    and fit: "segments_fit 0 (ranges_of msg) (length formatted)"
    and ok: "buffer_info_ok d"
  shows "print_colored s msg formatted d =
     Inr (d\<lparr>calls := calls d @ spec_walk formatted
             (colors s (level msg) OR (wAttributes d AND 0xfff0)) (wAttributes d) (ranges_of msg)\<rparr>)"
proof -
  let ?rs = "ranges_of msg"
  let ?a = "color_ranges_start msg ! 0" and ?b = "color_ranges_end msg ! 0"
  have lrs: "length ?rs = num_start_ranges msg" using ls le by (rule length_ranges_of)
  have hd: "?rs = (?a, ?b) # drop (Suc 0) ?rs"
    using n lrs nth_ranges_of [OF ls le n] Cons_nth_drop_Suc [of 0 ?rs] by simp
  from wo have "?a \<le> ?b" and "well_ordered ?b (drop (Suc 0) ?rs) (length formatted)"
    by (subst (asm) hd, simp)+
  then have a_len: "?a \<le> length formatted" using well_ordered_le by fastforce
  from fit have a_fit: "?a - 0 < 2 ^ 32"
    by (subst (asm) hd) simp
  have pre: "print_range formatted 0 ?a d = Inr (d\<lparr>calls := calls d @ plain_span formatted 0 ?a\<rparr>)"
    using a_len a_fit by (intro print_range_in_bounds) simp_all
  let ?d1 = "d\<lparr>calls := calls d @ plain_span formatted 0 ?a\<rparr>"
  have loop: "color_loop s msg formatted 0 ?d1 =
       Inr (?d1\<lparr>calls := calls ?d1 @ spec_spans formatted
               (colors s (level msg) OR (wAttributes ?d1 AND 0xfff0)) (wAttributes ?d1)
               (drop 0 ?rs)\<rparr>)"
    using ls le _ n by (rule color_loop_spans [where lo = 0]) (use ok wo fit in simp_all)
  have walk: "spec_walk formatted x y ?rs = plain_span formatted 0 ?a @ spec_spans formatted x y ?rs" for x y
    using hd by (rule spec_walk_Cons)
  from n ls have "0 < length (color_ranges_start msg)" by (rule less_le_trans)
  then show ?thesis
    using n pre loop by (simp add: print_colored_def range_at_def walk)
qed

lemma print_colored_whole:
  assumes "num_start_ranges msg = 0" and len: "length formatted < 2 ^ 32" and ok: "buffer_info_ok d"
  shows "print_colored s msg formatted d =
     Inr (d\<lparr>calls := calls d @ colored_span formatted
             (colors s (level msg) OR (wAttributes d AND 0xfff0)) (wAttributes d) 0 (length formatted)\<rparr>)"
proof -
  have pr: "\<And>e. print_range formatted 0 (length formatted) e
      = Inr (e\<lparr>calls := calls e @ plain_span formatted 0 (length formatted)\<rparr>)"
    using len by (intro print_range_in_bounds) simp_all
  show ?thesis
    using assms(1) ok
    by (simp add: print_colored_def set_foreground_color_ok pr SetConsoleTextAttribute_def
        record_call_def colored_span_def)
qed

subsection \<open>Runs on buffers of any size\<close>

lemma print_range_truncated:
  assumes "a < b" "b \<le> length formatted"
  shows "print_range formatted a b d =
     Inr (d\<lparr>calls := calls d @ [Ev_WriteConsoleA (take (DWORD (b - a)) (drop a formatted))]\<rparr>)"
proof -
  have "DWORD (b - a) \<le> b - a" by (rule DWORD_le)
  with assms have "a + DWORD (b - a) \<le> length formatted" by simp
  with assms(1) show ?thesis
    by (simp add: print_range_def WriteConsoleA_def record_call_def)
qed

lemma zero_ranges_colored_run:
  assumes "out_handle s \<noteq> nullptr" "out_handle s \<noteq> INVALID_HANDLE_VALUE"
    and "in_console s" "should_do_colors s" "buffer_info_ok d"
    and "formatter s (reset_ranges M msg) = (msg2, formatted)"
    and "num_start_ranges msg2 = 0" "num_end_ranges msg2 = 0"
    and "formatted \<noteq> []"
  shows "log M s msg d =
     Inr (msg2, d\<lparr>calls := calls d @
            [Ev_lock, Ev_format (reset_ranges M msg),
             Ev_GetConsoleScreenBufferInfo,
             Ev_SetConsoleTextAttribute (colors s (level msg2) OR (wAttributes d AND 0xfff0)),
             Ev_WriteConsoleA (take (DWORD (length formatted)) formatted),
             Ev_SetConsoleTextAttribute (wAttributes d),
             Ev_unlock]\<rparr>)"
proof -
  let ?d2 = "d\<lparr>calls := calls d @ [Ev_lock, Ev_format (reset_ranges M msg)]\<rparr>"
  have pr: "\<And>e. print_range formatted 0 (length formatted) e =
     Inr (e\<lparr>calls := calls e @ [Ev_WriteConsoleA (take (DWORD (length formatted)) formatted)]\<rparr>)"
    using print_range_truncated [of 0 "length formatted" formatted] assms(9) by simp
  have "print_colored s msg2 formatted ?d2 = Inr (?d2\<lparr>calls := calls ?d2 @
            [Ev_GetConsoleScreenBufferInfo,
             Ev_SetConsoleTextAttribute (colors s (level msg2) OR (wAttributes ?d2 AND 0xfff0)),
             Ev_WriteConsoleA (take (DWORD (length formatted)) formatted),
             Ev_SetConsoleTextAttribute (wAttributes ?d2)]\<rparr>)"
    using assms(5,7)
    by (simp add: print_colored_def set_foreground_color_ok pr SetConsoleTextAttribute_def record_call_def)
  then show ?thesis
    using assms(3,4,7,8)
    by (simp add: log_valid_unfold [OF assms(1,2,6)] record_call_def)
qed

lemma default_colors_warn: "default_colors warn = 0x000E"
  by (simp add: default_colors_def FOREGROUND_RED_def FOREGROUND_GREEN_def FOREGROUND_INTENSITY_def)

subsection \<open>Stale ranges, and a device that does not answer the attribute query\<close>

lemma reset_ranges_stale:
  "reset_ranges M (msg\<lparr>num_start_ranges := n1, color_ranges_start := xs,
                        num_end_ranges := n2, color_ranges_end := ys\<rparr>) = reset_ranges M msg"
  by (simp add: reset_ranges_def)

lemma zero_ranges_query_failed_run:
  assumes "out_handle s \<noteq> nullptr" "out_handle s \<noteq> INVALID_HANDLE_VALUE"
    and "in_console s" "should_do_colors s" "\<not> buffer_info_ok d" "set_attribute_ok d"
    and "formatter s (reset_ranges M msg) = (msg2, formatted)"
    and "num_start_ranges msg2 = 0" "num_end_ranges msg2 = 0"
    and "formatted \<noteq> []"
  shows "log M s msg d =
     Inr (msg2, d\<lparr>wAttributes := 0x0007,
            calls := calls d @
            [Ev_lock, Ev_format (reset_ranges M msg),
             Ev_GetConsoleScreenBufferInfo,
             Ev_WriteConsoleA (take (DWORD (length formatted)) formatted),
             Ev_SetConsoleTextAttribute 0x0007,
             Ev_unlock]\<rparr>)"
proof -
  let ?d2 = "d\<lparr>calls := calls d @ [Ev_lock, Ev_format (reset_ranges M msg)]\<rparr>"
  have pr: "\<And>e. print_range formatted 0 (length formatted) e =
     Inr (e\<lparr>calls := calls e @ [Ev_WriteConsoleA (take (DWORD (length formatted)) formatted)]\<rparr>)"
    using print_range_truncated [of 0 "length formatted" formatted] assms(10) by simp
  have "print_colored s msg2 formatted ?d2 = Inr (?d2\<lparr>wAttributes := 0x0007, calls := calls ?d2 @
            [Ev_GetConsoleScreenBufferInfo,
             Ev_WriteConsoleA (take (DWORD (length formatted)) formatted),
             Ev_SetConsoleTextAttribute 0x0007]\<rparr>)"
    using assms(5,6,8)
    by (simp add: print_colored_def set_foreground_color_failed pr SetConsoleTextAttribute_def record_call_def)
  then show ?thesis
    using assms(3,4,8,9)
    by (simp add: log_valid_unfold [OF assms(1,2,7)] record_call_def)
qed

subsection \<open>Every run that returns\<close>

lemma print_range_returns:
  "print_range formatted a b d = Inr d' \<Longrightarrow> d' = d\<lparr>calls := calls d @ issued formatted a b\<rparr>"
  by (auto simp: print_range_def WriteConsoleA_def record_call_def issued_def Let_def split: if_splits)

lemma settled_simps [simp]:
  "buffer_info_ok (settled d) = buffer_info_ok d"
  "set_attribute_ok (settled d) = set_attribute_ok d"
  "console_mode_ok (settled d) = console_mode_ok d"
  "calls (settled d) = calls d"
  "settled (settled d) = settled d"
  "settled (d\<lparr>calls := cs\<rparr>) = (settled d)\<lparr>calls := cs\<rparr>"
  "span_open (settled d) c = span_open d c"
  "span_restore (settled d) = span_restore d"
  "span_open (d\<lparr>calls := cs\<rparr>) c = span_open d c"
  "span_restore (d\<lparr>calls := cs\<rparr>) = span_restore d"
  by (simp_all add: settled_def span_open_def span_restore_def)

lemma colored_returns:
  assumes "set_foreground_color c d = (orig, d1)"
    and "print_range formatted a b d1 = Inr d2"
  shows "SetConsoleTextAttribute orig d2 =
     (settled d)\<lparr>calls := calls d @ span_trace (span_open d c) (span_restore d) formatted a b\<rparr>"
proof -
  have d2: "d2 = d1\<lparr>calls := calls d1 @ issued formatted a b\<rparr>"
    using assms(2) by (rule print_range_returns)
  show ?thesis
  proof (cases "buffer_info_ok d")
    case True
    with assms(1) have "orig = wAttributes d" and
      "d1 = d\<lparr>wAttributes := (if set_attribute_ok d then c OR (wAttributes d AND 0xfff0) else wAttributes d),
        calls := calls d @ [Ev_GetConsoleScreenBufferInfo,
                            Ev_SetConsoleTextAttribute (c OR (wAttributes d AND 0xfff0))]\<rparr>"
      using set_foreground_color_ok [OF True, of c] by auto
    with d2 True show ?thesis
      by (simp add: SetConsoleTextAttribute_def record_call_def settled_def span_trace_def
          span_open_def span_restore_def)
  next
    case False
    with assms(1) have "orig = 0x0007" and "d1 = d\<lparr>calls := calls d @ [Ev_GetConsoleScreenBufferInfo]\<rparr>"
      using set_foreground_color_failed [OF False, of c] by auto
    with d2 False show ?thesis
      by (simp add: SetConsoleTextAttribute_def record_call_def settled_def span_trace_def
          span_open_def span_restore_def)
  qed
qed

lemma range_at_InrD: "range_at arr i = Inr x \<Longrightarrow> i < length arr \<and> x = arr ! i"
  by (auto simp: range_at_def split: if_splits)

lemma color_step_returns:
  assumes "color_step s msg formatted i d = Inr d'"
  shows "i < length (color_ranges_start msg) \<and> i < length (color_ranges_end msg)
     \<and> (i + 1 < num_start_ranges msg \<longrightarrow> i + 1 < length (color_ranges_start msg))
     \<and> d' = (settled d)\<lparr>calls := calls d @
              step_trace (span_open d (colors s (level msg))) (span_restore d) formatted msg i\<rparr>"
proof -
  let ?c = "colors s (level msg)"
  obtain orig d1 where sf: "set_foreground_color ?c d = (orig, d1)"
    by (cases "set_foreground_color ?c d")
  from assms sf obtain a b d2 where
    ra: "range_at (color_ranges_start msg) i = Inr a"
    and rb: "range_at (color_ranges_end msg) i = Inr b"
    and pr: "print_range formatted a b d1 = Inr d2"
    and tl: "(if i + 1 < num_start_ranges msg then
               and_then (range_at (color_ranges_start msg) (i + 1)) (\<lambda>next_start.
                 print_range formatted b next_start (SetConsoleTextAttribute orig d2))
             else print_range formatted b (length formatted) (SetConsoleTextAttribute orig d2)) = Inr d'"
    by (auto simp: color_step_def Let_def elim!: and_then_InrE)
  from ra rb have i: "i < length (color_ranges_start msg)" "i < length (color_ranges_end msg)"
    and ab: "a = color_ranges_start msg ! i" "b = color_ranges_end msg ! i"
    by (auto dest: range_at_InrD)
  let ?d3 = "SetConsoleTextAttribute orig d2"
  have d3: "?d3 = (settled d)\<lparr>calls := calls d @ span_trace (span_open d ?c) (span_restore d) formatted a b\<rparr>"
    using sf pr by (rule colored_returns)
  have nx: "(i + 1 < num_start_ranges msg \<longrightarrow> i + 1 < length (color_ranges_start msg))
      \<and> print_range formatted b (next_start msg formatted i) ?d3 = Inr d'"
    using tl by (auto simp: next_start_def split: if_splits elim!: and_then_InrE dest: range_at_InrD)
  then have "d' = ?d3\<lparr>calls := calls ?d3 @ issued formatted b (next_start msg formatted i)\<rparr>"
    by (auto dest: print_range_returns)
  then have "d' = (settled d)\<lparr>calls := calls d @
              step_trace (span_open d ?c) (span_restore d) formatted msg i\<rparr>"
    unfolding d3 by (simp add: step_trace_def ab)
  with i nx show ?thesis by simp
qed

lemma color_loop_returns:
  "color_loop s msg formatted i d = Inr d' \<Longrightarrow> i < num_start_ranges msg \<Longrightarrow>
   num_start_ranges msg \<le> length (color_ranges_start msg)
   \<and> num_start_ranges msg \<le> length (color_ranges_end msg)
   \<and> d' = (settled d)\<lparr>calls := calls d @
            concat (map (step_trace (span_open d (colors s (level msg))) (span_restore d) formatted msg)
                        [i..<num_start_ranges msg])\<rparr>"
proof (induction s msg formatted i d arbitrary: d' rule: color_loop.induct)
  case (1 s msg formatted i d)
  let ?n = "num_start_ranges msg"
  let ?c = "colors s (level msg)"
  have i: "i < ?n" by fact
  obtain d1 where st: "color_step s msg formatted i d = Inr d1"
    using "1.prems" by (cases "color_step s msg formatted i d") (simp_all add: color_loop_fault)
  with "1.prems" have rest: "color_loop s msg formatted (i + 1) d1 = Inr d'"
    by (simp add: color_loop_step)
  note sr = color_step_returns [OF st]
  from sr have d1: "d1 = (settled d)\<lparr>calls := calls d @
              step_trace (span_open d ?c) (span_restore d) formatted msg i\<rparr>" by simp
  have upt: "[i..<?n] = i # [i + 1..<?n]" using i by (simp add: upt_conv_Cons)
  show ?case
  proof (cases "i + 1 < ?n")
    case True
    from "1.IH" [OF i st rest True]
    have b: "?n \<le> length (color_ranges_start msg)" "?n \<le> length (color_ranges_end msg)"
      and d': "d' = (settled d1)\<lparr>calls := calls d1 @
            concat (map (step_trace (span_open d1 ?c) (span_restore d1) formatted msg) [i + 1..<?n])\<rparr>"
      by simp_all
    from d' have "d' = (settled d)\<lparr>calls := calls d @
            concat (map (step_trace (span_open d ?c) (span_restore d) formatted msg) [i..<?n])\<rparr>"
      unfolding d1 upt by simp
    with b show ?thesis by simp
  next
    case False
    with i have n: "?n = i + 1" by simp
    from False rest have "d' = d1" by (simp add: color_loop_done)
    then have "d' = (settled d)\<lparr>calls := calls d @
            concat (map (step_trace (span_open d ?c) (span_restore d) formatted msg) [i..<?n])\<rparr>"
      unfolding d1 n by simp
    moreover from sr n have "?n \<le> length (color_ranges_start msg)" "?n \<le> length (color_ranges_end msg)"
      by simp_all
    ultimately show ?thesis by simp
  qed
qed

lemma print_colored_returns:
  assumes "print_colored s msg formatted d = Inr d'"
  shows "num_start_ranges msg \<le> length (color_ranges_start msg)
   \<and> num_start_ranges msg \<le> length (color_ranges_end msg)
   \<and> d' = (settled d)\<lparr>calls := calls d @
            walk_trace (span_open d (colors s (level msg))) (span_restore d) formatted msg\<rparr>"
proof (cases "0 < num_start_ranges msg")
  case True
  with assms obtain a d1 where ra: "range_at (color_ranges_start msg) 0 = Inr a"
    and pr: "print_range formatted 0 a d = Inr d1"
    and lp: "color_loop s msg formatted 0 d1 = Inr d'"
    by (auto simp: print_colored_def elim!: and_then_InrE)
  from ra have a: "a = color_ranges_start msg ! 0" by (auto dest: range_at_InrD)
  from pr have d1: "d1 = d\<lparr>calls := calls d @ issued formatted 0 a\<rparr>" by (rule print_range_returns)
  from color_loop_returns [OF lp True] True show ?thesis
    unfolding d1 a by (simp add: walk_trace_def)
next
  case False
  obtain orig d1 where sf: "set_foreground_color (colors s (level msg)) d = (orig, d1)"
    by (cases "set_foreground_color (colors s (level msg)) d")
  with False assms obtain d2 where pr: "print_range formatted 0 (length formatted) d1 = Inr d2"
    and d': "d' = SetConsoleTextAttribute orig d2"
    by (auto simp: print_colored_def elim!: and_then_InrE)
  from colored_returns [OF sf pr] d' False show ?thesis
    by (simp add: walk_trace_def)
qed

lemma log_colored_returns:
  assumes "out_handle s \<noteq> nullptr" "out_handle s \<noteq> INVALID_HANDLE_VALUE"
    and "in_console s" "should_do_colors s"
    and "formatter s (reset_ranges M msg) = (msg2, formatted)"
    and "num_start_ranges msg2 = num_end_ranges msg2"
    and "log M s msg d = Inr (m', d')"
  shows "m' = msg2
   \<and> num_start_ranges msg2 \<le> length (color_ranges_start msg2)
   \<and> num_start_ranges msg2 \<le> length (color_ranges_end msg2)
   \<and> d' = (settled d)\<lparr>calls := calls d @ [Ev_lock, Ev_format (reset_ranges M msg)]
            @ walk_trace (span_open d (colors s (level msg2))) (span_restore d) formatted msg2
            @ [Ev_unlock]\<rparr>"
proof -
  let ?d2 = "d\<lparr>calls := calls d @ [Ev_lock, Ev_format (reset_ranges M msg)]\<rparr>"
  from assms(7) obtain d3 where pc: "print_colored s msg2 formatted ?d2 = Inr d3"
    and res: "m' = msg2" "d' = record_call Ev_unlock d3"
    unfolding log_valid_unfold [OF assms(1,2,5)] using assms(3,4,6)
    by (auto elim!: and_then_InrE)
  from print_colored_returns [OF pc] res show ?thesis
    by (simp add: record_call_def)
qed

subsection \<open>The colourised branch on any device\<close>

lemma ranges_of_none: "num_start_ranges msg = 0 \<Longrightarrow> ranges_of msg = []"
  by (simp add: ranges_of_def)

lemma print_colored_answered:
  assumes ls: "num_start_ranges msg \<le> length (color_ranges_start msg)"
    and le: "num_start_ranges msg \<le> length (color_ranges_end msg)"
    and wo: "well_ordered 0 (ranges_of msg) (length formatted)"
    and fit: "segments_fit 0 (ranges_of msg) (length formatted)"
    and ok: "buffer_info_ok d"
  shows "print_colored s msg formatted d =
     Inr (d\<lparr>calls := calls d @ spec_walk formatted
             (colors s (level msg) OR (wAttributes d AND 0xfff0)) (wAttributes d) (ranges_of msg)\<rparr>)"
proof (cases "0 < num_start_ranges msg")
  case True
  then show ?thesis using ls le wo fit ok by (rule print_colored_ranges)
next
  case False
  then have n: "num_start_ranges msg = 0" by simp
  then have rs: "ranges_of msg = []" by (rule ranges_of_none)
  from fit have "length formatted < 2 ^ 32" by (simp add: rs)
  with n show ?thesis
    using ok by (simp add: print_colored_whole rs spec_walk_def)
qed

lemma log_colored_answered:
  assumes "out_handle s \<noteq> nullptr" "out_handle s \<noteq> INVALID_HANDLE_VALUE"
    and "in_console s" "should_do_colors s" "buffer_info_ok d"
    and "formatter s (reset_ranges M msg) = (msg2, formatted)"
    and "num_start_ranges msg2 = num_end_ranges msg2"
    and "num_start_ranges msg2 \<le> length (color_ranges_start msg2)"
    and "num_start_ranges msg2 \<le> length (color_ranges_end msg2)"
    and "well_ordered 0 (ranges_of msg2) (length formatted)"
    and "segments_fit 0 (ranges_of msg2) (length formatted)"
  shows "log M s msg d =
           Inr (msg2, d\<lparr>calls := calls d @ [Ev_lock, Ev_format (reset_ranges M msg)]
                 @ spec_walk formatted (colors s (level msg2) OR (wAttributes d AND 0xfff0))
                     (wAttributes d) (ranges_of msg2)
                 @ [Ev_unlock]\<rparr>)"
proof -
  let ?d2 = "d\<lparr>calls := calls d @ [Ev_lock, Ev_format (reset_ranges M msg)]\<rparr>"
  have ok2: "buffer_info_ok ?d2" using assms(5) by simp
  have "print_colored s msg2 formatted ?d2 =
     Inr (?d2\<lparr>calls := calls ?d2 @ spec_walk formatted
             (colors s (level msg2) OR (wAttributes ?d2 AND 0xfff0)) (wAttributes ?d2) (ranges_of msg2)\<rparr>)"
    using assms(8,9,10,11) ok2 by (rule print_colored_answered)
  then show ?thesis
    using assms(3,4,7)
    by (simp add: log_valid_unfold [OF assms(1,2,6)] record_call_def)
qed

lemma log_delivered_InrE:
  assumes "log_delivered r = log_delivered (Inr x)"
  obtains y where "r = Inr y"
  using assms by (cases r) (auto simp: log_delivered_def split: prod.splits)

lemma log_colored_run:
  assumes "out_handle s \<noteq> nullptr" "out_handle s \<noteq> INVALID_HANDLE_VALUE"
    and "in_console s" "should_do_colors s"
    and "formatter s (reset_ranges M msg) = (msg2, formatted)"
    and "num_start_ranges msg2 = num_end_ranges msg2"
    and "num_start_ranges msg2 \<le> length (color_ranges_start msg2)"
    and "num_start_ranges msg2 \<le> length (color_ranges_end msg2)"
    and "well_ordered 0 (ranges_of msg2) (length formatted)"
    and "segments_fit 0 (ranges_of msg2) (length formatted)"
  shows "log M s msg d =
     Inr (msg2, (settled d)\<lparr>calls := calls d @ [Ev_lock, Ev_format (reset_ranges M msg)]
            @ walk_trace (span_open d (colors s (level msg2))) (span_restore d) formatted msg2
            @ [Ev_unlock]\<rparr>)"
proof -
  let ?e = "d\<lparr>buffer_info_ok := True\<rparr>"
  have "buffer_info_ok ?e" by simp
  from log_colored_answered [OF assms(1,2,3,4) this assms(5,6,7,8,9,10)]
  obtain x where e: "log M s msg ?e = Inr x" by blast
  have "log_delivered (log M s msg d) = log_delivered (log M s msg ?e)"
    by (rule log_delivered_cong) simp
  then obtain y where "log M s msg d = Inr y"
    unfolding e by (rule log_delivered_InrE)
  then obtain m' d' where run: "log M s msg d = Inr (m', d')" by (cases y) simp
  from log_colored_returns [OF assms(1,2,3,4,5,6) run] run show ?thesis by simp
qed

subsection \<open>The guard on the device handle\<close>

text \<open>
  C4. When the sink's device handle is null or the invalid-handle sentinel,
  \<^verbatim>\<open>log\<close> returns at once and does nothing: the device is as before, so nothing
  was written, the mutex was not locked and the formatter was not called; the message is
  as before, so its ranges were not reset; and the call returns normally.
\<close>

theorem log_invalid_handle_noop:
  "out_handle s = nullptr \<or> out_handle s = INVALID_HANDLE_VALUE \<Longrightarrow>
   log MAX_RANGES s msg d = Inr (msg, d)"
  by (simp add: log_def)

theorem log_invalid_handle_noop_witness:
  "log 2 (sink0 nullptr True True (stub_formatter 0 [] 0 [] [1, 2, 3])) msg0 console0
     = Inr (msg0, console0)
   \<and> log 2 (sink0 INVALID_HANDLE_VALUE True True (stub_formatter 0 [] 0 [] [1, 2, 3])) msg0 console0
     = Inr (msg0, console0)"
  using log_invalid_handle_noop [of "sink0 nullptr True True (stub_formatter 0 [] 0 [] [1, 2, 3])" 2 msg0 console0]
    log_invalid_handle_noop [of "sink0 INVALID_HANDLE_VALUE True True (stub_formatter 0 [] 0 [] [1, 2, 3])" 2 msg0 console0]
  by (simp add: sink0_def)

subsection \<open>Printing a range\<close>

text \<open>
  C7. \<^verbatim>\<open>print_range_\<close> issues a write call if and only if \<open>end > start\<close>: when
  \<open>end \<le> start\<close> the device is left exactly as it was, no call being made; when
  \<open>end > start\<close> the operation is the one call of \<^verbatim>\<open>WriteConsoleA\<close> at offset
  \<open>start\<close>, whose size argument is \<open>end - start\<close> cast to a \<^verbatim>\<open>DWORD\<close>, and the
  device is not left as it was.
\<close>

theorem print_range_writes_iff:
  "(endp \<le> start \<longrightarrow> print_range formatted start endp d = Inr d)
   \<and> (start < endp \<longrightarrow>
        print_range formatted start endp d
          = WriteConsoleA formatted start (DWORD (endp - start)) d
        \<and> print_range formatted start endp d \<noteq> Inr d)"
  by (simp add: print_range_noop print_range_call WriteConsoleA_neq)

theorem print_range_writes_iff_witness:
  "print_range [1, 2, 3, 4] 2 2 console0 = Inr console0
   \<and> print_range [1, 2, 3, 4] 3 1 console0 = Inr console0
   \<and> print_range [1, 2, 3, 4] 1 3 console0 = Inr (console0\<lparr>calls := [Ev_WriteConsoleA [2, 3]]\<rparr>)"
  using print_range_writes_iff [of 2 2 "[1, 2, 3, 4]" console0]
    print_range_writes_iff [of 1 3 "[1, 2, 3, 4]" console0]
    print_range_writes_iff [of 3 1 "[1, 2, 3, 4]" console0]
  by (simp add: WriteConsoleA_def DWORD_def record_call_def console0_def)

subsection \<open>Changing the colour mode\<close>

text \<open>
  C10. \<^verbatim>\<open>set_color_mode\<close> changes the field \<^verbatim>\<open>should_do_colors_\<close> and nothing
  else of the sink: \<^verbatim>\<open>automatic\<close> sets it to the answer of a fresh
  \<^verbatim>\<open>GetConsoleMode\<close> probe of the handle, \<^verbatim>\<open>always\<close> to true, \<^verbatim>\<open>never\<close> to
  false. The flag \<^verbatim>\<open>in_console_\<close> is left as it is by this and by every other function
  of the file (the constructor leaves it at its initial value), so a sink that is not in a
  console logs the same way before and after a change of mode.
\<close>

theorem set_color_mode_writes_only_flag:
  "set_color_mode mode s d =
     (s\<lparr>should_do_colors :=
          (case mode of
             always \<Rightarrow> True
           | automatic \<Rightarrow> fst (GetConsoleMode (out_handle s) (record_call Ev_lock d))
           | never \<Rightarrow> False)\<rparr>,
      d\<lparr>calls := calls d @ (if mode = automatic then [Ev_lock, Ev_GetConsoleMode, Ev_unlock]
                             else [Ev_lock, Ev_unlock])\<rparr>)
   \<and> in_console (fst (set_color_mode mode s d)) = in_console s
   \<and> in_console (fst (set_color_mode_impl mode s d)) = in_console s
   \<and> in_console (fst (set_color lvl c s d)) = in_console s
   \<and> in_console (fst (set_pattern pf pat s d)) = in_console s
   \<and> in_console (fst (set_formatter f s d)) = in_console s
   \<and> in_console (fst (flush s d)) = in_console s
   \<and> in_console (fst (new_wincolor_sink ic0 f h mode d)) = ic0
   \<and> (\<not> in_console s \<longrightarrow> log M (fst (set_color_mode mode s d)) msg d' = log M s msg d')"
proof -
  have impl: "in_console (fst (set_color_mode_impl mode s d)) = in_console s" for s d
    by (simp add: set_color_mode_impl_def split: prod.splits)
  have new: "in_console (fst (new_wincolor_sink ic0 f h mode d)) = ic0"
    using impl [of "\<lparr>out_handle = h, in_console = ic0, should_do_colors = False,
              colors = (\<lambda>_. 0), formatter = f\<rparr>" d]
    by (cases "set_color_mode_impl mode \<lparr>out_handle = h, in_console = ic0, should_do_colors = False,
              colors = (\<lambda>_. 0), formatter = f\<rparr> d") (simp add: new_wincolor_sink_def)
  have lg: "log M (fst (set_color_mode mode s d)) msg d' = log M s msg d'" if "\<not> in_console s"
    using that by (simp add: set_color_mode_eq log_def)
  show ?thesis
    using impl new lg
    by (simp add: set_color_mode_eq set_color_def set_pattern_def set_formatter_def flush_def)
qed

theorem set_color_mode_writes_only_flag_witness:
  "set_color_mode automatic (sink0 (Handle 1) False False (stub_formatter 0 [] 0 [] [104])) console0
     = (sink0 (Handle 1) False True (stub_formatter 0 [] 0 [] [104]),
        console0\<lparr>calls := [Ev_lock, Ev_GetConsoleMode, Ev_unlock]\<rparr>)
   \<and> log 2 (fst (set_color_mode automatic (sink0 (Handle 1) False False (stub_formatter 0 [] 0 [] [104])) console0)) msg0 console0
     = log 2 (sink0 (Handle 1) False False (stub_formatter 0 [] 0 [] [104])) msg0 console0"
proof -
  note t = set_color_mode_writes_only_flag [of automatic
      "sink0 (Handle 1) False False (stub_formatter 0 [] 0 [] [104])" console0
      warn 0 "\<lambda>_. stub_formatter 0 [] 0 [] []" "[]" "stub_formatter 0 [] 0 [] []" False nullptr 2 msg0 console0]
  have a: "set_color_mode automatic (sink0 (Handle 1) False False (stub_formatter 0 [] 0 [] [104])) console0
     = (sink0 (Handle 1) False True (stub_formatter 0 [] 0 [] [104]),
        console0\<lparr>calls := [Ev_lock, Ev_GetConsoleMode, Ev_unlock]\<rparr>)"
    using t [THEN conjunct1]
    by (simp add: sink0_def GetConsoleMode_def console0_def record_call_def)
  have "\<not> in_console (sink0 (Handle 1) False False (stub_formatter 0 [] 0 [] [104]))"
    by (simp add: sink0_def)
  with t have b: "log 2 (fst (set_color_mode automatic (sink0 (Handle 1) False False (stub_formatter 0 [] 0 [] [104])) console0)) msg0 console0
     = log 2 (sink0 (Handle 1) False False (stub_formatter 0 [] 0 [] [104])) msg0 console0"
    by blast
  from a b show ?thesis by (rule conjI)
qed

subsection \<open>Resetting the ranges before formatting\<close>

text \<open>
  C8. On a valid handle, \<^verbatim>\<open>log\<close> resets both range counts to zero and both range
  arrays to zeros before it calls the formatter: whatever range data the message carries
  on entry, the result of the call is the same; the message handed to the formatter has
  zero counts and zeroed arrays; and in every run that returns, the formatter is called
  on that message right after the lock is taken, and the message on return is the one
  the formatter produced from it.
\<close>

theorem log_resets_ranges:
  assumes "out_handle s \<noteq> nullptr" "out_handle s \<noteq> INVALID_HANDLE_VALUE"
  shows "log M s (msg\<lparr>num_start_ranges := n1, color_ranges_start := xs,
                      num_end_ranges := n2, color_ranges_end := ys\<rparr>) d = log M s msg d
       \<and> num_start_ranges (reset_ranges M msg) = 0
       \<and> color_ranges_start (reset_ranges M msg) = replicate M 0
       \<and> num_end_ranges (reset_ranges M msg) = 0
       \<and> color_ranges_end (reset_ranges M msg) = replicate M 0
       \<and> (\<forall>m' d'. log M s msg d = Inr (m', d') \<longrightarrow>
             m' = fst (formatter s (reset_ranges M msg))
             \<and> (\<exists>rest. calls d' = calls d @ Ev_lock # Ev_format (reset_ranges M msg) # rest))"
proof -
  have same: "log M s (msg\<lparr>num_start_ranges := n1, color_ranges_start := xs,
                      num_end_ranges := n2, color_ranges_end := ys\<rparr>) d = log M s msg d"
    using assms by (simp add: log_def reset_ranges_stale)
  have fields: "num_start_ranges (reset_ranges M msg) = 0"
    "color_ranges_start (reset_ranges M msg) = replicate M 0"
    "num_end_ranges (reset_ranges M msg) = 0"
    "color_ranges_end (reset_ranges M msg) = replicate M 0"
    by (simp_all add: reset_ranges_def)
  have order: "m' = fst (formatter s (reset_ranges M msg))
      \<and> (\<exists>rest. calls d' = calls d @ Ev_lock # Ev_format (reset_ranges M msg) # rest)"
    if "log M s msg d = Inr (m', d')" for m' d'
    using log_inv [OF assms that] by auto
  from same fields order show ?thesis by blast
qed

theorem log_resets_ranges_witness:
  "log 2 (sink0 (Handle 1) True True (\<lambda>m. (m, [104, 105, 10]))) msg0 console0
     = log 2 (sink0 (Handle 1) True True (\<lambda>m. (m, [104, 105, 10]))) (reset_ranges 2 msg0) console0
   \<and> log 2 (sink0 (Handle 1) True True (\<lambda>m. (m, [104, 105, 10]))) msg0 console0
     = Inr (reset_ranges 2 msg0,
            console0\<lparr>calls :=
              [Ev_lock, Ev_format (reset_ranges 2 msg0),
               Ev_GetConsoleScreenBufferInfo, Ev_SetConsoleTextAttribute 0x000E,
               Ev_WriteConsoleA [104, 105, 10], Ev_SetConsoleTextAttribute 0x0002,
               Ev_unlock]\<rparr>)"
proof -
  let ?f = "[104, 105, 10 :: byte]"
  let ?s = "sink0 (Handle 1) True True (\<lambda>m. (m, ?f))"
  have v: "out_handle ?s \<noteq> nullptr" "out_handle ?s \<noteq> INVALID_HANDLE_VALUE"
    by (simp_all add: sink0_def)
  have stale: "(reset_ranges 2 msg0)\<lparr>num_start_ranges := 2, color_ranges_start := [1, 4],
                      num_end_ranges := 1, color_ranges_end := [3, 9]\<rparr> = msg0"
    by (simp add: reset_ranges_def msg0_def)
  have a: "log 2 ?s msg0 console0 = log 2 ?s (reset_ranges 2 msg0) console0"
    using log_resets_ranges [OF v, where M = 2 and msg = "reset_ranges 2 msg0" and ?n1.0 = 2
        and xs = "[1, 4]" and ?n2.0 = 1 and ys = "[3, 9]" and d = console0]
    unfolding stale by blast
  have h: "in_console ?s" "should_do_colors ?s" "buffer_info_ok console0"
    "formatter ?s (reset_ranges 2 msg0) = (reset_ranges 2 msg0, ?f)"
    "num_start_ranges (reset_ranges 2 msg0) = 0" "num_end_ranges (reset_ranges 2 msg0) = 0"
    "?f \<noteq> []"
    by (simp_all add: sink0_def console0_def reset_msg0)
  have w: "wAttributes console0 = 0x0002" "calls console0 = []" by (simp_all add: console0_def)
  have b: "log 2 ?s msg0 console0
     = Inr (reset_ranges 2 msg0,
            console0\<lparr>calls :=
              [Ev_lock, Ev_format (reset_ranges 2 msg0),
               Ev_GetConsoleScreenBufferInfo, Ev_SetConsoleTextAttribute 0x000E,
               Ev_WriteConsoleA [104, 105, 10], Ev_SetConsoleTextAttribute 0x0002,
               Ev_unlock]\<rparr>)"
    using zero_ranges_colored_run [OF v h]
    by (simp add: w DWORD_def sink0_def default_colors_warn reset_msg0)
  from a b show ?thesis by (rule conjI)
qed

subsection \<open>A device that is not a console\<close>

text \<open>
  What the code does when \<^verbatim>\<open>in_console_\<close> is false and the handle is valid, for a
  buffer of any size and every colour mode the sink is set to: it locks, formats, makes
  one \<^verbatim>\<open>WriteFile\<close> call and unlocks, with no attribute call. The size of the write
  is the buffer size cast to a \<^verbatim>\<open>DWORD\<close>, so the whole buffer is handed over when
  it is shorter than \<open>2 ^ 32\<close> bytes.
\<close>

lemma log_not_in_console_plain:
  assumes "out_handle s \<noteq> nullptr" "out_handle s \<noteq> INVALID_HANDLE_VALUE"
    and "\<not> in_console s"
    and "formatter s (reset_ranges M msg) = (msg2, formatted)"
  shows "log M s msg d =
           Inr (msg2, d\<lparr>calls := calls d @ [Ev_lock, Ev_format (reset_ranges M msg),
                           Ev_WriteFile (take (DWORD (length formatted)) formatted), Ev_unlock]\<rparr>)
       \<and> log M (fst (set_color_mode mode s d0)) msg d = log M s msg d
       \<and> (length formatted < 2 ^ 32 \<longrightarrow> take (DWORD (length formatted)) formatted = formatted)"
proof -
  let ?s' = "fst (set_color_mode mode s d0)"
  have s': "out_handle ?s' = out_handle s" "in_console ?s' = in_console s" "formatter ?s' = formatter s"
    by (simp_all add: set_color_mode_eq)
  have a: "log M s msg d =
           Inr (msg2, d\<lparr>calls := calls d @ [Ev_lock, Ev_format (reset_ranges M msg),
                           Ev_WriteFile (take (DWORD (length formatted)) formatted), Ev_unlock]\<rparr>)"
    using assms by (intro log_plain_paths) simp_all
  have b: "log M ?s' msg d =
           Inr (msg2, d\<lparr>calls := calls d @ [Ev_lock, Ev_format (reset_ranges M msg),
                           Ev_WriteFile (take (DWORD (length formatted)) formatted), Ev_unlock]\<rparr>)"
    using assms by (intro log_plain_paths) (simp_all only: s' simp_thms)
  show ?thesis using a b by (simp add: take_DWORD_all)
qed

text \<open>
  C3. The claim is that the entire formatted buffer is written. The code hands the data
  and the size of the whole buffer to the one \<^verbatim>\<open>WriteFile\<close> call, but narrows the
  size to a \<^verbatim>\<open>DWORD\<close> on the way (line 188) without a guard: on a buffer of
  \<open>2 ^ 32\<close> bytes the narrowed size is 0 and the call is handed no byte of the buffer.
\<close>

theorem log_not_in_console_truncates:
  "log 2 (sink0 (Handle 1) False True (stub_formatter 0 [0, 0] 0 [0, 0] (replicate (2 ^ 32) 0))) msg0 console0
     = Inr (reset_ranges 2 msg0,
            console0\<lparr>calls := [Ev_lock, Ev_format (reset_ranges 2 msg0), Ev_WriteFile [], Ev_unlock]\<rparr>)
   \<and> length (snd (stub_formatter 0 [0, 0] 0 [0, 0] (replicate (2 ^ 32) 0) (reset_ranges 2 msg0))) = 2 ^ 32"
  by (simp add: log_def Let_def write_to_file_eq DWORD_def record_call_def sink0_def
      stub_formatter_def reset_msg0 console0_def)

subsection \<open>Colours disabled, or inconsistent range counts\<close>

text \<open>
  What the code does on a valid handle with \<^verbatim>\<open>in_console_\<close> true when
  \<^verbatim>\<open>should_do_colors_\<close> is false or the formatter leaves a number of start ranges
  different from the number of end ranges, for a buffer of any size: it locks, formats,
  makes one \<^verbatim>\<open>WriteFile\<close> call and unlocks, with no attribute call, and returns
  normally; with differing counts this is so whatever colour mode the sink is set to.
  The size of the write is the buffer size cast to a \<^verbatim>\<open>DWORD\<close>.
\<close>

lemma log_plain_fallback:
  assumes "out_handle s \<noteq> nullptr" "out_handle s \<noteq> INVALID_HANDLE_VALUE"
    and "in_console s"
    and "formatter s (reset_ranges M msg) = (msg2, formatted)"
    and "\<not> should_do_colors s \<or> num_start_ranges msg2 \<noteq> num_end_ranges msg2"
  shows "log M s msg d =
           Inr (msg2, d\<lparr>calls := calls d @ [Ev_lock, Ev_format (reset_ranges M msg),
                           Ev_WriteFile (take (DWORD (length formatted)) formatted), Ev_unlock]\<rparr>)
       \<and> (num_start_ranges msg2 \<noteq> num_end_ranges msg2 \<longrightarrow>
            log M (fst (set_color_mode mode s d0)) msg d = log M s msg d)
       \<and> (length formatted < 2 ^ 32 \<longrightarrow> take (DWORD (length formatted)) formatted = formatted)"
proof -
  let ?s' = "fst (set_color_mode mode s d0)"
  let ?r = "Inr (msg2, d\<lparr>calls := calls d @ [Ev_lock, Ev_format (reset_ranges M msg),
                           Ev_WriteFile (take (DWORD (length formatted)) formatted), Ev_unlock]\<rparr>)"
  have s': "out_handle ?s' = out_handle s" "in_console ?s' = in_console s" "formatter ?s' = formatter s"
    by (simp_all add: set_color_mode_eq)
  have a: "log M s msg d = ?r"
    using assms by (intro log_plain_paths) auto
  have b: "log M ?s' msg d = ?r" if "num_start_ranges msg2 \<noteq> num_end_ranges msg2"
    using assms(1,2,4) that by (intro log_plain_paths) (simp_all only: s' simp_thms)
  show ?thesis using a b by (simp add: take_DWORD_all)
qed

text \<open>
  C2. The claim is that the entire formatted buffer is written in the one plain write.
  The narrowing of the size to a \<^verbatim>\<open>DWORD\<close> in \<^verbatim>\<open>write_to_file_\<close> (line 188)
  breaks it: with colours disabled, on a buffer of \<open>2 ^ 32\<close> bytes the one write call
  is handed no byte of the buffer.
\<close>

theorem log_plain_fallback_truncates:
  "log 2 (sink0 (Handle 1) True False (stub_formatter 0 [0, 0] 0 [0, 0] (replicate (2 ^ 32) 0))) msg0 console0
     = Inr (reset_ranges 2 msg0,
            console0\<lparr>calls := [Ev_lock, Ev_format (reset_ranges 2 msg0), Ev_WriteFile [], Ev_unlock]\<rparr>)
   \<and> length (snd (stub_formatter 0 [0, 0] 0 [0, 0] (replicate (2 ^ 32) 0) (reset_ranges 2 msg0))) = 2 ^ 32"
  by (simp add: log_def Let_def write_to_file_eq DWORD_def record_call_def sink0_def
      stub_formatter_def reset_msg0 console0_def)

subsection \<open>No range: the whole buffer is one coloured span\<close>




subsection \<open>One or more ranges: the walk over the buffer\<close>

text \<open>
  C1, as the code has it. On a valid handle with \<^verbatim>\<open>in_console_\<close> true and colours
  enabled, on a device that answers the attribute query, when the formatter leaves equal
  range counts, at least one range, all ranges within the two arrays, well ordered and
  in bounds, and every segment of the walk is shorter than \<open>2 ^ 32\<close> bytes: between
  locking and formatting and unlocking, the calls \<^verbatim>\<open>log\<close> makes are exactly the walk
  of the specification, the prefix before the first range uncoloured, then for each range
  the colour applied, the bytes of the range, the captured attributes restored, and the
  uncoloured gap up to the next range or the end of the buffer. The bytes written,
  concatenated, are the buffer, and the attribute calls are one apply and restore pair
  per range, in range order.
\<close>

theorem log_colored_ranges:
  assumes "out_handle s \<noteq> nullptr" "out_handle s \<noteq> INVALID_HANDLE_VALUE"
    and "in_console s" "should_do_colors s" "buffer_info_ok d"
    and "formatter s (reset_ranges M msg) = (msg2, formatted)"
    and "num_start_ranges msg2 = num_end_ranges msg2" "0 < num_start_ranges msg2"
    and "num_start_ranges msg2 \<le> length (color_ranges_start msg2)"
    and "num_start_ranges msg2 \<le> length (color_ranges_end msg2)"
    and "well_ordered 0 (ranges_of msg2) (length formatted)"
    and "segments_fit 0 (ranges_of msg2) (length formatted)"
  shows "log M s msg d =
           Inr (msg2, d\<lparr>calls := calls d @ [Ev_lock, Ev_format (reset_ranges M msg)]
                 @ spec_walk formatted (colors s (level msg2) OR (wAttributes d AND 0xfff0))
                     (wAttributes d) (ranges_of msg2)
                 @ [Ev_unlock]\<rparr>)
       \<and> written (spec_walk formatted (colors s (level msg2) OR (wAttributes d AND 0xfff0))
                     (wAttributes d) (ranges_of msg2)) = formatted
       \<and> attribute_sets (spec_walk formatted (colors s (level msg2) OR (wAttributes d AND 0xfff0))
                     (wAttributes d) (ranges_of msg2))
            = concat (map (\<lambda>r. [colors s (level msg2) OR (wAttributes d AND 0xfff0), wAttributes d])
                        (ranges_of msg2))"
proof -
  have run: "log M s msg d =
           Inr (msg2, d\<lparr>calls := calls d @ [Ev_lock, Ev_format (reset_ranges M msg)]
                 @ spec_walk formatted (colors s (level msg2) OR (wAttributes d AND 0xfff0))
                     (wAttributes d) (ranges_of msg2)
                 @ [Ev_unlock]\<rparr>)"
    using assms(1,2,3,4,5,6,7,9,10,11,12) by (rule log_colored_answered)
  have "length (ranges_of msg2) = num_start_ranges msg2"
    using assms(9,10) by (rule length_ranges_of)
  with assms(8) have ne: "ranges_of msg2 \<noteq> []" by auto
  show ?thesis
    using run written_spec_walk [OF assms(11)] attribute_sets_spec_walk [OF ne] by simp
qed

theorem log_colored_ranges_witness:
  "log 2 (sink0 (Handle 1) True True (stub_formatter 2 [0, 5] 2 [3, 8] [1, 2, 3, 4, 5, 6, 7, 8, 9, 10]))
       msg0 console0
     = Inr (\<lparr>level = warn, payload = [], num_start_ranges = 2, color_ranges_start = [0, 5],
              num_end_ranges = 2, color_ranges_end = [3, 8]\<rparr>,
            console0\<lparr>calls :=
              [Ev_lock, Ev_format (reset_ranges 2 msg0),
               Ev_GetConsoleScreenBufferInfo, Ev_SetConsoleTextAttribute 0x000E,
               Ev_WriteConsoleA [1, 2, 3], Ev_SetConsoleTextAttribute 0x0002,
               Ev_WriteConsoleA [4, 5],
               Ev_GetConsoleScreenBufferInfo, Ev_SetConsoleTextAttribute 0x000E,
               Ev_WriteConsoleA [6, 7, 8], Ev_SetConsoleTextAttribute 0x0002,
               Ev_WriteConsoleA [9, 10],
               Ev_unlock]\<rparr>)"
proof -
  let ?s = "sink0 (Handle 1) True True (stub_formatter 2 [0, 5] 2 [3, 8] [1, 2, 3, 4, 5, 6, 7, 8, 9, 10])"
  let ?m2 = "\<lparr>level = warn, payload = [], num_start_ranges = 2, color_ranges_start = [0, 5],
              num_end_ranges = 2, color_ranges_end = [3, 8]\<rparr>"
  have rs: "ranges_of ?m2 = [(0, 3), (5, 8)]" by (simp add: ranges_of_def)
  have h: "out_handle ?s \<noteq> nullptr" "out_handle ?s \<noteq> INVALID_HANDLE_VALUE"
    "in_console ?s" "should_do_colors ?s" "buffer_info_ok console0"
    "formatter ?s (reset_ranges 2 msg0) = (?m2, [1, 2, 3, 4, 5, 6, 7, 8, 9, 10])"
    "num_start_ranges ?m2 = num_end_ranges ?m2" "0 < num_start_ranges ?m2"
    "num_start_ranges ?m2 \<le> length (color_ranges_start ?m2)"
    "num_start_ranges ?m2 \<le> length (color_ranges_end ?m2)"
    "well_ordered 0 (ranges_of ?m2) (length [1, 2, 3, 4, 5, 6, 7, 8, 9, 10 :: byte])"
    "segments_fit 0 (ranges_of ?m2) (length [1, 2, 3, 4, 5, 6, 7, 8, 9, 10 :: byte])"
    by (simp_all add: sink0_def console0_def stub_formatter_def reset_msg0 rs)
  have w: "wAttributes console0 = 0x0002" "calls console0 = []" by (simp_all add: console0_def)
  show ?thesis
    using log_colored_ranges [OF h, THEN conjunct1]
    by (simp add: w rs spec_walk_def colored_span_def plain_span_def slice_def
        sink0_def default_colors_warn)
qed

text \<open>
  C1 as stated fails on a device that does not answer the attribute query: with the
  ranges \<open>[0, 3)\<close> and \<open>[5, 8)\<close> over a buffer of 10 bytes, no colour is applied
  before either range and the white default is set after each. The bytes written are
  still the buffer, but there is no apply and restore pair.
\<close>

theorem log_colored_ranges_query_failed:
  "log 2 (sink0 (Handle 1) True True (stub_formatter 2 [0, 5] 2 [3, 8] [1, 2, 3, 4, 5, 6, 7, 8, 9, 10]))
       msg0 (console0\<lparr>buffer_info_ok := False\<rparr>)
     = Inr (\<lparr>level = warn, payload = [], num_start_ranges = 2, color_ranges_start = [0, 5],
              num_end_ranges = 2, color_ranges_end = [3, 8]\<rparr>,
            console0\<lparr>buffer_info_ok := False, wAttributes := 0x0007,
              calls :=
              [Ev_lock, Ev_format (reset_ranges 2 msg0),
               Ev_GetConsoleScreenBufferInfo,
               Ev_WriteConsoleA [1, 2, 3], Ev_SetConsoleTextAttribute 0x0007,
               Ev_WriteConsoleA [4, 5],
               Ev_GetConsoleScreenBufferInfo,
               Ev_WriteConsoleA [6, 7, 8], Ev_SetConsoleTextAttribute 0x0007,
               Ev_WriteConsoleA [9, 10],
               Ev_unlock]\<rparr>)
   \<and> well_ordered 0 [(0, 3), (5, 8)] (length [1, 2, 3, 4, 5, 6, 7, 8, 9, 10 :: byte])"
proof -
  let ?f = "[1, 2, 3, 4, 5, 6, 7, 8, 9, 10 :: byte]"
  let ?s = "sink0 (Handle 1) True True (stub_formatter 2 [0, 5] 2 [3, 8] ?f)"
  let ?m2 = "\<lparr>level = warn, payload = [], num_start_ranges = 2, color_ranges_start = [0, 5],
              num_end_ranges = 2, color_ranges_end = [3, 8]\<rparr>"
  let ?d = "console0\<lparr>buffer_info_ok := False\<rparr>"
  have rs: "ranges_of ?m2 = [(0, 3), (5, 8)]" by (simp add: ranges_of_def)
  have h: "out_handle ?s \<noteq> nullptr" "out_handle ?s \<noteq> INVALID_HANDLE_VALUE"
    "in_console ?s" "should_do_colors ?s"
    "formatter ?s (reset_ranges 2 msg0) = (?m2, ?f)"
    "num_start_ranges ?m2 = num_end_ranges ?m2"
    "num_start_ranges ?m2 \<le> length (color_ranges_start ?m2)"
    "num_start_ranges ?m2 \<le> length (color_ranges_end ?m2)"
    "well_ordered 0 (ranges_of ?m2) (length ?f)"
    "segments_fit 0 (ranges_of ?m2) (length ?f)"
    by (simp_all add: sink0_def stub_formatter_def reset_msg0 rs)
  have st: "settled ?d = console0\<lparr>buffer_info_ok := False, wAttributes := 0x0007\<rparr>"
    "span_open ?d c = [Ev_GetConsoleScreenBufferInfo]" "span_restore ?d = 0x0007"
    "calls ?d = []" for c
    by (simp_all add: settled_def span_open_def span_restore_def console0_def)
  have up: "[0..<2] = [0, 1 :: nat]" by (simp add: upt_rec)
  have wt: "walk_trace [Ev_GetConsoleScreenBufferInfo] 0x0007 ?f ?m2 =
     [Ev_GetConsoleScreenBufferInfo,
      Ev_WriteConsoleA [1, 2, 3], Ev_SetConsoleTextAttribute 0x0007,
      Ev_WriteConsoleA [4, 5],
      Ev_GetConsoleScreenBufferInfo,
      Ev_WriteConsoleA [6, 7, 8], Ev_SetConsoleTextAttribute 0x0007,
      Ev_WriteConsoleA [9, 10]]"
    by (simp add: walk_trace_def step_trace_def span_trace_def issued_def next_start_def
        DWORD_def up)
  have "log 2 ?s msg0 ?d = Inr (?m2, console0\<lparr>buffer_info_ok := False, wAttributes := 0x0007,
              calls :=
              [Ev_lock, Ev_format (reset_ranges 2 msg0),
               Ev_GetConsoleScreenBufferInfo,
               Ev_WriteConsoleA [1, 2, 3], Ev_SetConsoleTextAttribute 0x0007,
               Ev_WriteConsoleA [4, 5],
               Ev_GetConsoleScreenBufferInfo,
               Ev_WriteConsoleA [6, 7, 8], Ev_SetConsoleTextAttribute 0x0007,
               Ev_WriteConsoleA [9, 10],
               Ev_unlock]\<rparr>)"
    unfolding log_colored_run [OF h] st wt by simp
  moreover have "well_ordered 0 [(0, 3), (5, 8)] (length ?f)" by simp
  ultimately show ?thesis by (rule conjI)
qed

subsection \<open>Capturing and restoring the attributes\<close>

text \<open>
  C5, as the code has it. On a device that answers the attribute query,
  \<^verbatim>\<open>set_foreground_color_\<close> captures the current attributes, sets the level's colour
  over the captured attributes masked with \<open>0xfff0\<close>, and returns the captured
  attributes for the restore; and the attributes of the device on return from
  \<^verbatim>\<open>log\<close> are those on entry. On a device that does not answer the query,
  \<^verbatim>\<open>set_foreground_color_\<close> sets no colour and returns the white default
  \<open>0x0007\<close>. In every run of the colourised branch that returns, the calls of
  \<^verbatim>\<open>log\<close> between formatting and unlocking are exactly, span by span: the query,
  the apply when the query is answered and nothing otherwise, the write of the range, and
  the restore, which sets the captured attributes when the query is answered and the
  white default otherwise. The bytes that \<^verbatim>\<open>log\<close> writes, and whether it faults, are
  the same whether or not the query is answered.
\<close>

theorem color_capture_and_restore:
  "(buffer_info_ok d \<longrightarrow>
      set_foreground_color c d =
        (wAttributes d,
         d\<lparr>wAttributes :=
             (if set_attribute_ok d then c OR (wAttributes d AND 0xfff0) else wAttributes d),
           calls := calls d @ [Ev_GetConsoleScreenBufferInfo,
                               Ev_SetConsoleTextAttribute (c OR (wAttributes d AND 0xfff0))]\<rparr>)
      \<and> (\<forall>m' d'. log M s msg d = Inr (m', d') \<longrightarrow> wAttributes d' = wAttributes d))
   \<and> (\<not> buffer_info_ok d \<longrightarrow>
        set_foreground_color c d
          = (0x0007, d\<lparr>calls := calls d @ [Ev_GetConsoleScreenBufferInfo]\<rparr>))
   \<and> (\<forall>m' d'. out_handle s \<noteq> nullptr \<longrightarrow> out_handle s \<noteq> INVALID_HANDLE_VALUE \<longrightarrow>
          in_console s \<longrightarrow> should_do_colors s \<longrightarrow>
          num_start_ranges m' = num_end_ranges m' \<longrightarrow>
          log M s msg d = Inr (m', d') \<longrightarrow>
          num_start_ranges m' \<le> length (color_ranges_start m')
          \<and> num_start_ranges m' \<le> length (color_ranges_end m')
          \<and> calls d' =
              calls d @ [Ev_lock, Ev_format (reset_ranges M msg)]
              @ (if buffer_info_ok d
                 then walk_trace
                        [Ev_GetConsoleScreenBufferInfo,
                         Ev_SetConsoleTextAttribute
                           (colors s (level m') OR (wAttributes d AND 0xfff0))]
                        (wAttributes d) (snd (formatter s (reset_ranges M msg))) m'
                 else walk_trace [Ev_GetConsoleScreenBufferInfo] 0x0007
                        (snd (formatter s (reset_ranges M msg))) m')
              @ [Ev_unlock])
   \<and> log_delivered (log M s msg (d\<lparr>buffer_info_ok := False\<rparr>))
        = log_delivered (log M s msg (d\<lparr>buffer_info_ok := True\<rparr>))"
proof -
  have keep: "wAttributes d' = wAttributes d"
    if ok: "buffer_info_ok d" and run: "log M s msg d = Inr (m', d')" for m' d'
  proof (cases "out_handle s = nullptr \<or> out_handle s = INVALID_HANDLE_VALUE")
    case True
    with run show ?thesis by (simp add: log_def)
  next
    case False
    then have "out_handle s \<noteq> nullptr" "out_handle s \<noteq> INVALID_HANDLE_VALUE" by simp_all
    from log_inv [OF this run] ok show ?thesis by simp
  qed
  have trace: "num_start_ranges m' \<le> length (color_ranges_start m')
          \<and> num_start_ranges m' \<le> length (color_ranges_end m')
          \<and> calls d' =
              calls d @ [Ev_lock, Ev_format (reset_ranges M msg)]
              @ (if buffer_info_ok d
                 then walk_trace
                        [Ev_GetConsoleScreenBufferInfo,
                         Ev_SetConsoleTextAttribute
                           (colors s (level m') OR (wAttributes d AND 0xfff0))]
                        (wAttributes d) (snd (formatter s (reset_ranges M msg))) m'
                 else walk_trace [Ev_GetConsoleScreenBufferInfo] 0x0007
                        (snd (formatter s (reset_ranges M msg))) m')
              @ [Ev_unlock]"
    if v: "out_handle s \<noteq> nullptr" "out_handle s \<noteq> INVALID_HANDLE_VALUE"
      and c: "in_console s" "should_do_colors s"
      and eq: "num_start_ranges m' = num_end_ranges m'"
      and run: "log M s msg d = Inr (m', d')" for m' d'
  proof -
    obtain msg2 formatted where f: "formatter s (reset_ranges M msg) = (msg2, formatted)"
      by (cases "formatter s (reset_ranges M msg)")
    from log_inv [OF v run] f have m: "m' = msg2" by simp
    from log_colored_returns [OF v c f eq [unfolded m] run] f show ?thesis
      by (simp add: m span_open_def span_restore_def)
  qed
  have same: "log_delivered (log M s msg (d\<lparr>buffer_info_ok := False\<rparr>))
        = log_delivered (log M s msg (d\<lparr>buffer_info_ok := True\<rparr>))"
    by (rule log_delivered_cong) simp
  have A: "buffer_info_ok d \<longrightarrow>
      set_foreground_color c d =
        (wAttributes d,
         d\<lparr>wAttributes :=
             (if set_attribute_ok d then c OR (wAttributes d AND 0xfff0) else wAttributes d),
           calls := calls d @ [Ev_GetConsoleScreenBufferInfo,
                               Ev_SetConsoleTextAttribute (c OR (wAttributes d AND 0xfff0))]\<rparr>)
      \<and> (\<forall>m' d'. log M s msg d = Inr (m', d') \<longrightarrow> wAttributes d' = wAttributes d)"
    using keep by (simp add: set_foreground_color_ok)
  have B: "\<not> buffer_info_ok d \<longrightarrow>
        set_foreground_color c d
          = (0x0007, d\<lparr>calls := calls d @ [Ev_GetConsoleScreenBufferInfo]\<rparr>)"
    by (simp add: set_foreground_color_failed)
  from trace have C: "\<forall>m' d'. out_handle s \<noteq> nullptr \<longrightarrow> out_handle s \<noteq> INVALID_HANDLE_VALUE \<longrightarrow>
          in_console s \<longrightarrow> should_do_colors s \<longrightarrow>
          num_start_ranges m' = num_end_ranges m' \<longrightarrow>
          log M s msg d = Inr (m', d') \<longrightarrow>
          num_start_ranges m' \<le> length (color_ranges_start m')
          \<and> num_start_ranges m' \<le> length (color_ranges_end m')
          \<and> calls d' =
              calls d @ [Ev_lock, Ev_format (reset_ranges M msg)]
              @ (if buffer_info_ok d
                 then walk_trace
                        [Ev_GetConsoleScreenBufferInfo,
                         Ev_SetConsoleTextAttribute
                           (colors s (level m') OR (wAttributes d AND 0xfff0))]
                        (wAttributes d) (snd (formatter s (reset_ranges M msg))) m'
                 else walk_trace [Ev_GetConsoleScreenBufferInfo] 0x0007
                        (snd (formatter s (reset_ranges M msg))) m')
              @ [Ev_unlock]"
    by (intro allI impI)
  show ?thesis
    by (rule conjI [OF A conjI [OF B conjI [OF C same]]])
qed

theorem color_capture_and_restore_witness:
  "set_foreground_color 0x000E console0
     = (0x0002, console0\<lparr>wAttributes := 0x000E,
                  calls := [Ev_GetConsoleScreenBufferInfo, Ev_SetConsoleTextAttribute 0x000E]\<rparr>)
   \<and> set_foreground_color 0x000E (console0\<lparr>buffer_info_ok := False\<rparr>)
     = (0x0007, console0\<lparr>buffer_info_ok := False, calls := [Ev_GetConsoleScreenBufferInfo]\<rparr>)
   \<and> (\<exists>m' d'. log 2 (sink0 (Handle 1) True True (stub_formatter 2 [0, 5] 2 [3, 8] [1, 2, 3, 4, 5, 6, 7, 8, 9, 10]))
                  msg0 (console0\<lparr>buffer_info_ok := False\<rparr>) = Inr (m', d')
        \<and> calls d' =
            [Ev_lock, Ev_format (reset_ranges 2 msg0),
             Ev_GetConsoleScreenBufferInfo,
             Ev_WriteConsoleA [1, 2, 3], Ev_SetConsoleTextAttribute 0x0007,
             Ev_WriteConsoleA [4, 5],
             Ev_GetConsoleScreenBufferInfo,
             Ev_WriteConsoleA [6, 7, 8], Ev_SetConsoleTextAttribute 0x0007,
             Ev_WriteConsoleA [9, 10],
             Ev_unlock])
   \<and> (\<exists>m' d'. log 2 (sink0 (Handle 1) True True (stub_formatter 2 [0, 5] 2 [3, 8] [1, 2, 3, 4, 5, 6, 7, 8, 9, 10]))
                  msg0 console0 = Inr (m', d')
        \<and> wAttributes d' = 0x0002
        \<and> calls d' =
            [Ev_lock, Ev_format (reset_ranges 2 msg0),
             Ev_GetConsoleScreenBufferInfo, Ev_SetConsoleTextAttribute 0x000E,
             Ev_WriteConsoleA [1, 2, 3], Ev_SetConsoleTextAttribute 0x0002,
             Ev_WriteConsoleA [4, 5],
             Ev_GetConsoleScreenBufferInfo, Ev_SetConsoleTextAttribute 0x000E,
             Ev_WriteConsoleA [6, 7, 8], Ev_SetConsoleTextAttribute 0x0002,
             Ev_WriteConsoleA [9, 10],
             Ev_unlock])
   \<and> log_delivered (log 2 (sink0 (Handle 1) True True (stub_formatter 2 [0, 5] 2 [3, 8] [1, 2, 3, 4, 5, 6, 7, 8, 9, 10]))
         msg0 (console0\<lparr>buffer_info_ok := False\<rparr>))
     = log_delivered (log 2 (sink0 (Handle 1) True True (stub_formatter 2 [0, 5] 2 [3, 8] [1, 2, 3, 4, 5, 6, 7, 8, 9, 10]))
         msg0 console0)"
proof -
  let ?f = "[1, 2, 3, 4, 5, 6, 7, 8, 9, 10 :: byte]"
  let ?s = "sink0 (Handle 1) True True (stub_formatter 2 [0, 5] 2 [3, 8] ?f)"
  let ?m2 = "\<lparr>level = warn, payload = [], num_start_ranges = 2, color_ranges_start = [0, 5],
              num_end_ranges = 2, color_ranges_end = [3, 8]\<rparr>"
  let ?d = "console0\<lparr>buffer_info_ok := False\<rparr>"
  note t1 = color_capture_and_restore [of console0 "0x000E" 2 ?s msg0]
  note t2 = color_capture_and_restore [of ?d "0x000E" 2 ?s msg0]
  have ok: "buffer_info_ok console0" by (simp add: console0_def)
  have nok: "\<not> buffer_info_ok ?d" by simp
  have id: "console0\<lparr>buffer_info_ok := True\<rparr> = console0" by (simp add: console0_def)
  have rs: "ranges_of ?m2 = [(0, 3), (5, 8)]" by (simp add: ranges_of_def)
  have h: "out_handle ?s \<noteq> nullptr" "out_handle ?s \<noteq> INVALID_HANDLE_VALUE"
    "in_console ?s" "should_do_colors ?s"
    "formatter ?s (reset_ranges 2 msg0) = (?m2, ?f)"
    "num_start_ranges ?m2 = num_end_ranges ?m2"
    "num_start_ranges ?m2 \<le> length (color_ranges_start ?m2)"
    "num_start_ranges ?m2 \<le> length (color_ranges_end ?m2)"
    "well_ordered 0 (ranges_of ?m2) (length ?f)"
    "segments_fit 0 (ranges_of ?m2) (length ?f)"
    by (simp_all add: sink0_def stub_formatter_def reset_msg0 rs)
  have up: "[0..<2] = [0, 1 :: nat]" by (simp add: upt_rec)
  have a: "set_foreground_color 0x000E console0
     = (0x0002, console0\<lparr>wAttributes := 0x000E,
                  calls := [Ev_GetConsoleScreenBufferInfo, Ev_SetConsoleTextAttribute 0x000E]\<rparr>)"
    using t1 ok by (simp add: console0_def)
  have b: "set_foreground_color 0x000E ?d
     = (0x0007, console0\<lparr>buffer_info_ok := False, calls := [Ev_GetConsoleScreenBufferInfo]\<rparr>)"
    using t2 nok by (simp add: console0_def)
  obtain d1 where r1: "log 2 ?s msg0 ?d = Inr (?m2, d1)"
    using log_colored_run [OF h, of ?d] by blast
  from t2 h(1-4,6) r1 nok have "calls d1 = calls ?d @ [Ev_lock, Ev_format (reset_ranges 2 msg0)]
      @ walk_trace [Ev_GetConsoleScreenBufferInfo] 0x0007
          (snd (formatter ?s (reset_ranges 2 msg0))) ?m2 @ [Ev_unlock]"
    by (simp only: simp_thms if_False)
  then have c1: "calls d1 =
            [Ev_lock, Ev_format (reset_ranges 2 msg0),
             Ev_GetConsoleScreenBufferInfo,
             Ev_WriteConsoleA [1, 2, 3], Ev_SetConsoleTextAttribute 0x0007,
             Ev_WriteConsoleA [4, 5],
             Ev_GetConsoleScreenBufferInfo,
             Ev_WriteConsoleA [6, 7, 8], Ev_SetConsoleTextAttribute 0x0007,
             Ev_WriteConsoleA [9, 10],
             Ev_unlock]"
    unfolding h(5) snd_conv
    by (simp add: console0_def walk_trace_def step_trace_def span_trace_def issued_def
        next_start_def DWORD_def up)
  obtain d2 where r2: "log 2 ?s msg0 console0 = Inr (?m2, d2)"
    using log_colored_run [OF h, of console0] by blast
  from t1 ok r2 have w2: "wAttributes d2 = wAttributes console0" by blast
  from t1 h(1-4,6) r2 ok have "calls d2 = calls console0 @ [Ev_lock, Ev_format (reset_ranges 2 msg0)]
      @ walk_trace [Ev_GetConsoleScreenBufferInfo,
                    Ev_SetConsoleTextAttribute (colors ?s (level ?m2) OR (wAttributes console0 AND 0xfff0))]
          (wAttributes console0) (snd (formatter ?s (reset_ranges 2 msg0))) ?m2 @ [Ev_unlock]"
    by (simp only: simp_thms if_True)
  then have c2: "calls d2 =
            [Ev_lock, Ev_format (reset_ranges 2 msg0),
             Ev_GetConsoleScreenBufferInfo, Ev_SetConsoleTextAttribute 0x000E,
             Ev_WriteConsoleA [1, 2, 3], Ev_SetConsoleTextAttribute 0x0002,
             Ev_WriteConsoleA [4, 5],
             Ev_GetConsoleScreenBufferInfo, Ev_SetConsoleTextAttribute 0x000E,
             Ev_WriteConsoleA [6, 7, 8], Ev_SetConsoleTextAttribute 0x0002,
             Ev_WriteConsoleA [9, 10],
             Ev_unlock]"
    unfolding h(5) snd_conv
    by (simp add: sink0_def default_colors_warn console0_def walk_trace_def
        step_trace_def span_trace_def issued_def next_start_def DWORD_def up)
  have e: "log_delivered (log 2 ?s msg0 ?d) = log_delivered (log 2 ?s msg0 console0)"
    using t1 [THEN conjunct2, THEN conjunct2, THEN conjunct2] unfolding id .
  from w2 have w2': "wAttributes d2 = 0x0002" by (simp add: console0_def)
  from a b r1 c1 r2 w2' c2 e show ?thesis by blast
qed

text \<open>
  C5 as stated fails on a device that does not answer the attribute query but accepts
  attribute changes: the bytes are written with no colour set before them, the only
  attribute call comes after the write and sets the white default, and the device's
  attributes on return (\<open>0x0007\<close>) are not those on entry (\<open>0x0002\<close>).
\<close>

theorem color_query_failed_sets_white:
  "log 2 (sink0 (Handle 1) True True (stub_formatter 0 [0, 0] 0 [0, 0] [104, 105, 10]))
       msg0 (console0\<lparr>buffer_info_ok := False\<rparr>)
     = Inr (reset_ranges 2 msg0,
            console0\<lparr>buffer_info_ok := False, wAttributes := 0x0007,
              calls :=
              [Ev_lock, Ev_format (reset_ranges 2 msg0),
               Ev_GetConsoleScreenBufferInfo,
               Ev_WriteConsoleA [104, 105, 10], Ev_SetConsoleTextAttribute 0x0007,
               Ev_unlock]\<rparr>)
   \<and> wAttributes (console0\<lparr>buffer_info_ok := False\<rparr>) = 0x0002"
proof -
  let ?f = "[104, 105, 10 :: byte]"
  let ?s = "sink0 (Handle 1) True True (stub_formatter 0 [0, 0] 0 [0, 0] ?f)"
  let ?d = "console0\<lparr>buffer_info_ok := False\<rparr>"
  have h: "out_handle ?s \<noteq> nullptr" "out_handle ?s \<noteq> INVALID_HANDLE_VALUE"
    "in_console ?s" "should_do_colors ?s" "\<not> buffer_info_ok ?d" "set_attribute_ok ?d"
    "formatter ?s (reset_ranges 2 msg0) = (reset_ranges 2 msg0, ?f)"
    "num_start_ranges (reset_ranges 2 msg0) = 0" "num_end_ranges (reset_ranges 2 msg0) = 0"
    "?f \<noteq> []"
    by (simp_all add: sink0_def console0_def stub_formatter_def reset_msg0)
  have w: "calls ?d = []" "wAttributes ?d = 0x0002" by (simp_all add: console0_def)
  have "log 2 ?s msg0 ?d
     = Inr (reset_ranges 2 msg0,
            console0\<lparr>buffer_info_ok := False, wAttributes := 0x0007,
              calls :=
              [Ev_lock, Ev_format (reset_ranges 2 msg0),
               Ev_GetConsoleScreenBufferInfo,
               Ev_WriteConsoleA [104, 105, 10], Ev_SetConsoleTextAttribute 0x0007,
               Ev_unlock]\<rparr>)"
    using zero_ranges_query_failed_run [OF h]
    by (simp add: w DWORD_def)
  then show ?thesis using w(2) by (rule conjI)
qed

end
